theory Spec2Isabelle
  imports Complex_Main "HOL-Library.AList"
begin

section \<open>Values, errors and strings\<close>

text \<open>
  The library is written in JavaScript and its functions take values of any type, so the
  embedding starts from a datatype of values. A number is \<open>NaN\<close>, an infinity or a
  finite number (a real; every finite double is one); a BigInt is an integer. An object,
  array or function is a reference \<open>Ref a\<close> to a cell of the heap (see below), since two
  claims are about the identity of objects. A raised exception is the \<open>Inl\<close> of a sum.
\<close>

datatype jsnum = NaN | PosInf | NegInf | Fin real

type_synonym addr = nat

datatype jsval =
    Undefined
  | Null
  | Bool bool
  | Num jsnum
  | BigInt int
  | Str string
  | Sym string
  | Ref addr

datatype jserror = Error string | TypeError string | SyntaxError string | RangeError string

text \<open>
  \<open>String.prototype.toUpperCase\<close>, on the letters \<open>a\<close> to \<open>z\<close>; every other character
  is left as it is (no character outside these maps to \<open>Y\<close> or \<open>N\<close>).
\<close>

definition toUpperChar :: "char \<Rightarrow> char" where
  "toUpperChar c =
     (case map_of (zip ''abcdefghijklmnopqrstuvwxyz'' ''ABCDEFGHIJKLMNOPQRSTUVWXYZ'') c of
        Some u \<Rightarrow> u
      | None \<Rightarrow> c)"

definition toUpperCase :: "string \<Rightarrow> string" where
  "toUpperCase s = map toUpperChar s"

text \<open>
  The conversion \<open>String(value)\<close>. On a string it is the identity and on \<open>undefined\<close>,
  \<open>null\<close>, a boolean, a symbol, \<open>NaN\<close> and the infinities it gives the fixed texts of the
  language. The text of a finite number, of a BigInt and of an object (which may come
  from a \<open>toString\<close> method of the caller's, and may raise) is the host's: it is the
  parameter \<open>hs\<close>, and every theorem below holds for every such host.
\<close>

type_synonym host = "jsval \<Rightarrow> jserror + string"

fun js_String :: "host \<Rightarrow> jsval \<Rightarrow> jserror + string" where
  "js_String hs (Str s) = Inr s"
| "js_String hs Undefined = Inr ''undefined''"
| "js_String hs Null = Inr ''null''"
| "js_String hs (Bool b) = Inr (if b then ''true'' else ''false'')"
| "js_String hs (Sym d) = Inr (''Symbol('' @ d @ '')'')"
| "js_String hs (Num NaN) = Inr ''NaN''"
| "js_String hs (Num PosInf) = Inr ''Infinity''"
| "js_String hs (Num NegInf) = Inr ''-Infinity''"
| "js_String hs (Num (Fin x)) = hs (Num (Fin x))"
| "js_String hs (BigInt n) = hs (BigInt n)"
| "js_String hs (Ref a) = hs (Ref a)"

text \<open>A host for the concrete examples: every object prints as a plain object does.\<close>

definition plain_host :: host where
  "plain_host v = Inr ''[object Object]''"

section \<open>The boolean module (\<open>src/boolean.js\<close>)\<close>

text \<open>
  \<^verbatim>\<open>
  export function boolToYN(value) {
    if (typeof value !== 'boolean') {
      throw new Error('The value argument must be a boolean type');
    }
    return value ? 'Y' : 'N';
  }
  \<close>
\<close>

fun boolToYN :: "jsval \<Rightarrow> jserror + string" where
  "boolToYN (Bool b) = Inr (if b then ''Y'' else ''N'')"
| "boolToYN v = Inl (Error ''The value argument must be a boolean type'')"

text \<open>
  \<^verbatim>\<open>
  export function ynToBool(value) {
    value = String(value).toUpperCase();
    if (value !== 'Y' && value !== 'N') {
      throw new Error('The value argument must be "Y" or "N"');
    }
    return value === 'Y';
  }
  \<close>
\<close>

definition ynToBool :: "host \<Rightarrow> jsval \<Rightarrow> jserror + bool" where
  "ynToBool hs v =
     (case js_String hs v of
        Inl e \<Rightarrow> Inl e
      | Inr s \<Rightarrow>
          (let u = toUpperCase s
           in if u \<noteq> ''Y'' \<and> u \<noteq> ''N''
              then Inl (Error ''The value argument must be \"Y\" or \"N\"'')
              else Inr (u = ''Y'')))"

text \<open>
  \<open>Array.prototype.every\<close> and \<open>Array.prototype.some\<close> over the elements of the array,
  in index order: each stops at the first element that decides the result, and an
  exception of the callback ends the traversal. The array is given by the sequence of
  its elements; the callback is called with the element (and with its index and the
  array, which \<open>ynToBool\<close> does not read).
\<close>

fun js_every :: "('a \<Rightarrow> jserror + bool) \<Rightarrow> 'a list \<Rightarrow> jserror + bool" where
  "js_every f [] = Inr True"
| "js_every f (x # xs) =
     (case f x of
        Inl e \<Rightarrow> Inl e
      | Inr b \<Rightarrow> if b then js_every f xs else Inr False)"

fun js_some :: "('a \<Rightarrow> jserror + bool) \<Rightarrow> 'a list \<Rightarrow> jserror + bool" where
  "js_some f [] = Inr False"
| "js_some f (x # xs) =
     (case f x of
        Inl e \<Rightarrow> Inl e
      | Inr b \<Rightarrow> if b then Inr True else js_some f xs)"

text \<open>
  \<^verbatim>\<open>
  export function allY(values) { return values.every(ynToBool); }
  export function someY(values) { return values.some(ynToBool); }
  export function allN(values) {
    return values.every(function(value) { return !ynToBool(value); });
  }
  export function someN(values) {
    return values.some(function(value) { return !ynToBool(value); });
  }
  \<close>
  The anonymous callback of \<open>allN\<close> and \<open>someN\<close> is \<open>notYnToBool\<close>.
\<close>

definition notYnToBool :: "host \<Rightarrow> jsval \<Rightarrow> jserror + bool" where
  "notYnToBool hs v = (case ynToBool hs v of Inl e \<Rightarrow> Inl e | Inr b \<Rightarrow> Inr (\<not> b))"

definition allY :: "host \<Rightarrow> jsval list \<Rightarrow> jserror + bool" where
  "allY hs vs = js_every (ynToBool hs) vs"

definition someY :: "host \<Rightarrow> jsval list \<Rightarrow> jserror + bool" where
  "someY hs vs = js_some (ynToBool hs) vs"

definition allN :: "host \<Rightarrow> jsval list \<Rightarrow> jserror + bool" where
  "allN hs vs = js_every (notYnToBool hs) vs"

definition someN :: "host \<Rightarrow> jsval list \<Rightarrow> jserror + bool" where
  "someN hs vs = js_some (notYnToBool hs) vs"

section \<open>Numbers, objects and the heap\<close>

text \<open>
  The operators of the language on numbers that the library uses: \<open>a >= b\<close>,
  \<open>a % b\<close> (the remainder has the sign of the dividend, the quotient is truncated) and
  \<open>a === b\<close>. A comparison with \<open>NaN\<close> is false.
\<close>

fun js_ge :: "jsnum \<Rightarrow> jsnum \<Rightarrow> bool" where
  "js_ge NaN b = False"
| "js_ge a NaN = False"
| "js_ge PosInf b = True"
| "js_ge a NegInf = True"
| "js_ge NegInf b = False"
| "js_ge a PosInf = False"
| "js_ge (Fin x) (Fin y) = (y \<le> x)"

definition trunc :: "real \<Rightarrow> int" where
  "trunc x = (if 0 \<le> x then \<lfloor>x\<rfloor> else \<lceil>x\<rceil>)"

fun js_rem :: "jsnum \<Rightarrow> jsnum \<Rightarrow> jsnum" where
  "js_rem (Fin x) (Fin y) = (if y = 0 then NaN else Fin (x - y * of_int (trunc (x / y))))"
| "js_rem (Fin x) PosInf = Fin x"
| "js_rem (Fin x) NegInf = Fin x"
| "js_rem a b = NaN"

fun js_num_eq :: "jsnum \<Rightarrow> jsnum \<Rightarrow> bool" where
  "js_num_eq NaN b = False"
| "js_num_eq a NaN = False"
| "js_num_eq a b = (a = b)"

text \<open>
  A cell of the heap is a plain object, an array or a function. A plain object is the
  list of its own enumerable properties, in the order of enumeration. An array is the
  sequence of its elements, where \<open>None\<close> is a hole (an index below the length that has no
  property), and its other own enumerable properties. A function has its number of
  parameters (its \<open>length\<close>), its own enumerable properties, and the kind of its own
  \<open>prototype\<close> property: writable (a function declaration or expression), read-only (a
  class) or absent (an arrow function, a method). All properties are data properties:
  accessors, objects that are frozen or sealed, and prototypes other than the built-in
  ones are outside the model. An address beyond the heap does not occur in a state of
  the program; it reads as an empty object.
\<close>

datatype proto_prop = WritableProto | ReadOnlyProto | NoProto

datatype hobj =
    PlainObj "(string \<times> jsval) list"
  | ArrayObj "jsval option list" "(string \<times> jsval) list"
  | FunObj proto_prop nat "(string \<times> jsval) list"

type_synonym heap = "hobj list"

definition cell :: "heap \<Rightarrow> addr \<Rightarrow> hobj" where
  "cell h a = (if a < length h then h ! a else PlainObj [])"

text \<open>\<open>value == null\<close> holds of \<open>null\<close> and \<open>undefined\<close> only.\<close>

fun is_nullish :: "jsval \<Rightarrow> bool" where
  "is_nullish Undefined = True"
| "is_nullish Null = True"
| "is_nullish v = False"

fun typeof :: "heap \<Rightarrow> jsval \<Rightarrow> string" where
  "typeof h Undefined = ''undefined''"
| "typeof h Null = ''object''"
| "typeof h (Bool b) = ''boolean''"
| "typeof h (Num n) = ''number''"
| "typeof h (BigInt n) = ''bigint''"
| "typeof h (Str s) = ''string''"
| "typeof h (Sym d) = ''symbol''"
| "typeof h (Ref a) = (case cell h a of FunObj p n ps \<Rightarrow> ''function'' | _ \<Rightarrow> ''object'')"

text \<open>\<open>Array.isArray(value)\<close>.\<close>

fun isArray :: "heap \<Rightarrow> jsval \<Rightarrow> bool" where
  "isArray h (Ref a) = (case cell h a of ArrayObj els nps \<Rightarrow> True | _ \<Rightarrow> False)"
| "isArray h v = False"

text \<open>
  The read \<open>obj.length\<close>: the number of characters of a string, the length of an
  array (holes count), the number of parameters of a function; the own property of
  that name of a plain object, and
  \<open>undefined\<close> where there is none. (On \<open>null\<close> and \<open>undefined\<close> the read raises; the
  library reads it behind a guard, and the model gives \<open>undefined\<close> there.)
\<close>

fun get_length :: "heap \<Rightarrow> jsval \<Rightarrow> jsval" where
  "get_length h (Str s) = Num (Fin (real (length s)))"
| "get_length h (Ref a) =
     (case cell h a of
        ArrayObj els nps \<Rightarrow> Num (Fin (real (length els)))
      | FunObj p n ps \<Rightarrow> Num (Fin (real n))
      | PlainObj ps \<Rightarrow> (case map_of ps ''length'' of Some v \<Rightarrow> v | None \<Rightarrow> Undefined))"
| "get_length h v = Undefined"

text \<open>The conversion to a boolean of \<open>!x\<close> and \<open>if (x)\<close>.\<close>

fun truthy :: "jsval \<Rightarrow> bool" where
  "truthy Undefined = False"
| "truthy Null = False"
| "truthy (Bool b) = b"
| "truthy (Num NaN) = False"
| "truthy (Num (Fin x)) = (x \<noteq> 0)"
| "truthy (Num n) = True"
| "truthy (BigInt n) = (n \<noteq> 0)"
| "truthy (Str s) = (s \<noteq> [])"
| "truthy (Sym d) = True"
| "truthy (Ref a) = True"

text \<open>
  \<open>String.prototype.trim\<close> removes white space and line terminators from both ends
  (here: tab, line feed, vertical tab, form feed, carriage return, space and the
  no-break space).
\<close>

definition is_space :: "char \<Rightarrow> bool" where
  "is_space c = (c \<in> set [CHR 0x09, CHR 0x0A, CHR 0x0B, CHR 0x0C, CHR 0x0D, CHR 0x20, CHR 0xA0])"

definition trim :: "string \<Rightarrow> string" where
  "trim s = rev (dropWhile is_space (rev (dropWhile is_space s)))"

text \<open>
  The key of an array index is its decimal numeral, and a key is an array index when it
  is the numeral of a number below \<open>2^32 - 1\<close>.
\<close>

fun index_key :: "nat \<Rightarrow> string" where
  "index_key n =
     (if n < 10 then [''0123456789'' ! n]
      else index_key (n div 10) @ [''0123456789'' ! (n mod 10)])"

declare index_key.simps [simp del]

definition digit_of :: "char \<Rightarrow> nat option" where
  "digit_of c = map_of (zip ''0123456789'' [0..<10]) c"

fun numeral_of :: "nat \<Rightarrow> string \<Rightarrow> nat option" where
  "numeral_of acc [] = Some acc"
| "numeral_of acc (c # cs) =
     (case digit_of c of None \<Rightarrow> None | Some d \<Rightarrow> numeral_of (10 * acc + d) cs)"

definition index_limit :: nat where
  "index_limit = 4294967295"

definition array_index :: "string \<Rightarrow> nat option" where
  "array_index k =
     (case numeral_of 0 k of
        None \<Rightarrow> None
      | Some n \<Rightarrow> if index_key n = k \<and> n < index_limit then Some n else None)"

text \<open>
  The own enumerable properties of a value, as \<open>for (key in value)\<close> visits them and
  \<open>value[key]\<close> reads them: the indices that are present, in ascending order, before
  the other keys; a key once, with the value of its first entry.
\<close>

definition index_entries :: "jsval option list \<Rightarrow> (string \<times> jsval) list" where
  "index_entries els =
     List.map_filter (\<lambda>i. map_option (Pair (index_key i)) (els ! i))
       [0..<min (length els) index_limit]"

fun own_entries :: "heap \<Rightarrow> jsval \<Rightarrow> (string \<times> jsval) list" where
  "own_entries h (Ref a) =
     (case cell h a of
        PlainObj ps \<Rightarrow> AList.clearjunk ps
      | FunObj p n ps \<Rightarrow> AList.clearjunk ps
      | ArrayObj els nps \<Rightarrow> index_entries els @ AList.clearjunk nps)"
| "own_entries h (Str s) = index_entries (map (\<lambda>c. Some (Str [c])) s)"
| "own_entries h v = []"

definition for_in_keys :: "heap \<Rightarrow> jsval \<Rightarrow> string list" where
  "for_in_keys h v = map fst (own_entries h v)"

section \<open>The lang module: predicates\<close>

text \<open>
  \<^verbatim>\<open>
  export function isArrayLike(obj) {
    return obj != null &&
      typeof obj !== 'function' &&
      typeof obj.length === 'number' &&
      obj.length >= 0 &&
      obj.length % 1 === 0;
  }
  \<close>
\<close>

definition isArrayLike :: "heap \<Rightarrow> jsval \<Rightarrow> bool" where
  "isArrayLike h obj =
     (\<not> is_nullish obj \<and>
      typeof h obj \<noteq> ''function'' \<and>
      typeof h (get_length h obj) = ''number'' \<and>
      (case get_length h obj of
         Num n \<Rightarrow> js_ge n (Fin 0) \<and> js_num_eq (js_rem n (Fin 1)) (Fin 0)
       | _ \<Rightarrow> False))"

text \<open>
  The own properties of the model are the enumerable ones and the \<open>length\<close> of a
  string, an array and a function.
\<close>

fun has_own_length :: "heap \<Rightarrow> jsval \<Rightarrow> bool" where
  "has_own_length h (Str s) = True"
| "has_own_length h (Ref a) = (case cell h a of PlainObj ps \<Rightarrow> False | _ \<Rightarrow> True)"
| "has_own_length h v = False"

text \<open>
  Modelled from the spec: \<open>hasOwnProp\<close> is imported from \<open>./internal/core\<close>, which is
  not among the sources. The spec has \<open>hasOwnProp(obj, prop)\<close> true iff \<open>prop\<close> is an own
  (not inherited) property of \<open>obj\<close>.
\<close>

definition hasOwnProp :: "heap \<Rightarrow> jsval \<Rightarrow> string \<Rightarrow> bool" where
  "hasOwnProp h obj prop =
     (prop \<in> set (for_in_keys h obj) \<or> (prop = ''length'' \<and> has_own_length h obj))"

text \<open>
  Modelled from the spec: \<open>isObject\<close> is imported from \<open>./internal/core\<close>, which is not
  among the sources. The spec calls it the object-type check, which an object that is
  not an array can pass and which numbers, booleans and the other values of which
  \<open>isEmptyData\<close> is false do not: the value is not \<open>null\<close> and its type is \<open>object\<close>.
\<close>

definition isObject :: "heap \<Rightarrow> jsval \<Rightarrow> bool" where
  "isObject h v = (\<not> is_nullish v \<and> typeof h v = ''object'')"

text \<open>
  \<^verbatim>\<open>
  export function isEmptyData(value) {
    if (value == null) { return true; }
    if (typeof value === 'string') {
      return value.trim() === '';
    } else if (Array.isArray(value)) {
      return !value.length;
    } else if (isObject(value)) {
      for (const key in value) {
        if (hasOwnProp(value, key)) { return false; }
      }
      return true;
    }
    return false;
  }
  \<close>
  The loop is \<open>no_own_key\<close>; the receiver of \<open>trim\<close> is a string by the test before it.
\<close>

fun no_own_key :: "heap \<Rightarrow> jsval \<Rightarrow> string list \<Rightarrow> bool" where
  "no_own_key h v [] = True"
| "no_own_key h v (key # keys) = (if hasOwnProp h v key then False else no_own_key h v keys)"

definition isEmptyData :: "heap \<Rightarrow> jsval \<Rightarrow> bool" where
  "isEmptyData h v =
     (if is_nullish v then True
      else if typeof h v = ''string'' then (case v of Str s \<Rightarrow> trim s = [] | _ \<Rightarrow> False)
      else if isArray h v then \<not> truthy (get_length h v)
      else if isObject h v then no_own_key h v (for_in_keys h v)
      else False)"

section \<open>The lang module: \<open>extend\<close>\<close>

text \<open>
  The conversion of a value to a number, which the assignment of the \<open>length\<close> of an
  array makes. The number of a string and of an object (which may come from a
  \<open>valueOf\<close> method of the caller's, and may raise) is the host's, the parameter \<open>hn\<close>.
  A number is the length of an array when it is an integer from \<open>0\<close> to \<open>2^32 - 1\<close>.
\<close>

type_synonym num_host = "jsval \<Rightarrow> jserror + jsnum"

fun js_Number :: "num_host \<Rightarrow> jsval \<Rightarrow> jserror + jsnum" where
  "js_Number hn Undefined = Inr NaN"
| "js_Number hn Null = Inr (Fin 0)"
| "js_Number hn (Bool b) = Inr (Fin (if b then 1 else 0))"
| "js_Number hn (Num n) = Inr n"
| "js_Number hn (BigInt n) = Inl (TypeError ''Cannot convert a BigInt value to a number'')"
| "js_Number hn (Sym d) = Inl (TypeError ''Cannot convert a Symbol value to a number'')"
| "js_Number hn (Str s) = hn (Str s)"
| "js_Number hn (Ref a) = hn (Ref a)"

fun array_length :: "jsnum \<Rightarrow> nat option" where
  "array_length (Fin x) =
     (if 0 \<le> x \<and> x < 4294967296 \<and> x = of_int \<lfloor>x\<rfloor> then Some (nat \<lfloor>x\<rfloor>) else None)"
| "array_length n = None"

text \<open>
  The assignment \<open>target[key] = v\<close> in the strict code of a module, on the object that
  the target refers to; it gives the object after the assignment, or raises.
  \<^item> An own property of that name is replaced where it stands; a new one is added at
    the end.
  \<^item> \<open>__proto__\<close>, when it is not an own property, is the accessor of the built-in
    prototype: the assignment sets the prototype, which the model does not hold, and
    leaves the own properties as they are.
  \<^item> On an array, \<open>length\<close> cuts the elements or adds holes, and raises a \<open>RangeError\<close>
    when the value is not a length; an index sets the element, with holes before it
    when it lies beyond the length.
  \<^item> On a function, \<open>length\<close> and \<open>name\<close> are read-only and \<open>caller\<close> and \<open>arguments\<close>
    are refused: the assignment raises a \<open>TypeError\<close>. \<open>prototype\<close> is the hidden
    property of a function that has one (the assignment changes no enumerable
    property, or raises when it is read-only).
\<close>

definition read_only :: "jserror" where
  "read_only = TypeError ''Cannot assign to read only property''"

fun assign :: "num_host \<Rightarrow> hobj \<Rightarrow> string \<Rightarrow> jsval \<Rightarrow> jserror + hobj" where
  "assign hn (PlainObj ps) k v =
     (if k = ''__proto__'' \<and> k \<notin> fst ` set ps then Inr (PlainObj ps)
      else Inr (PlainObj (AList.update k v ps)))"
| "assign hn (ArrayObj els nps) k v =
     (if k = ''length''
      then (case js_Number hn v of
              Inl e \<Rightarrow> Inl e
            | Inr n \<Rightarrow>
                (case array_length n of
                   None \<Rightarrow> Inl (RangeError ''Invalid array length'')
                 | Some m \<Rightarrow> Inr (ArrayObj (take m els @ replicate (m - length els) None) nps)))
      else (case array_index k of
              Some i \<Rightarrow>
                Inr (ArrayObj (if i < length els then els[i := Some v]
                               else els @ replicate (i - length els) None @ [Some v]) nps)
            | None \<Rightarrow>
                if k = ''__proto__'' \<and> k \<notin> fst ` set nps then Inr (ArrayObj els nps)
                else Inr (ArrayObj els (AList.update k v nps))))"
| "assign hn (FunObj p n ps) k v =
     (if k \<in> fst ` set ps then Inr (FunObj p n (AList.update k v ps))
      else if k \<in> set [''length'', ''name'', ''caller'', ''arguments''] then Inl read_only
      else if k = ''prototype''
      then (case p of
              WritableProto \<Rightarrow> Inr (FunObj p n ps)
            | ReadOnlyProto \<Rightarrow> Inl read_only
            | NoProto \<Rightarrow> Inr (FunObj p n (AList.update k v ps)))
      else if k = ''__proto__'' then Inr (FunObj p n ps)
      else Inr (FunObj p n (AList.update k v ps)))"








section \<open>The lang module: JSON\<close>

text \<open>
  A JSON text is represented by its syntax tree (white space, escapes and the spelling of
  numbers are not modelled), and a string that is not a JSON text is kept as it is. The
  members of an object are a list, in the order of the text; a text may repeat a key.
\<close>

datatype json =
    JNull
  | JBool bool
  | JNum real
  | JStr string
  | JArr "json list"
  | JObj "(string \<times> json) list"

datatype jstext = JSONText json | NotJSON string

text \<open>
  \<open>JSON.parse\<close> on a JSON text allocates a fresh object for every array and object of
  the text, at the end of the heap, the parts before the whole; a repeated key of an
  object keeps its place and takes the later value. On any other string it raises a
  \<open>SyntaxError\<close>.
\<close>

fun build :: "heap \<Rightarrow> json \<Rightarrow> jsval \<times> heap"
  and build_list :: "heap \<Rightarrow> json list \<Rightarrow> jsval list \<times> heap"
  and build_members ::
    "heap \<Rightarrow> (string \<times> json) list \<Rightarrow> (string \<times> jsval) list \<Rightarrow> (string \<times> jsval) list \<times> heap"
where
  "build h JNull = (Null, h)"
| "build h (JBool b) = (Bool b, h)"
| "build h (JNum x) = (Num (Fin x), h)"
| "build h (JStr s) = (Str s, h)"
| "build h (JArr ts) =
     (case build_list h ts of
        (vs, h') \<Rightarrow> (Ref (length h'), h' @ [ArrayObj (map Some vs) []]))"
| "build h (JObj ms) =
     (case build_members h ms [] of (ps, h') \<Rightarrow> (Ref (length h'), h' @ [PlainObj ps]))"
| "build_list h [] = ([], h)"
| "build_list h (t # ts) =
     (case build h t of (v, h1) \<Rightarrow>
        (case build_list h1 ts of (vs, h2) \<Rightarrow> (v # vs, h2)))"
| "build_members h [] ps = (ps, h)"
| "build_members h ((k, t) # ms) ps =
     (case build h t of (v, h1) \<Rightarrow> build_members h1 ms (AList.update k v ps))"

definition JSON_parse :: "heap \<Rightarrow> jstext \<Rightarrow> jserror + jsval \<times> heap" where
  "JSON_parse h str =
     (case str of
        JSONText t \<Rightarrow> Inr (build h t)
      | NotJSON s \<Rightarrow> Inl (SyntaxError s))"

text \<open>
  \<open>JSON.stringify\<close>: the serialization of a value, with the stack of the objects that
  are being serialized. \<open>undefined\<close>, a symbol and a function have no serialization
  (\<open>None\<close>): such a property of an object is left out and such an element of an array
  becomes \<open>null\<close>, as \<open>NaN\<close> and the infinities do. Of an array the elements below its
  length are serialized, a hole as \<open>undefined\<close> is, and no other property. An object met
  again below itself and a BigInt raise a \<open>TypeError\<close>. A \<open>toJSON\<close> method is not called:
  the call of a function is outside the model, and the theorems on serialization are
  about heaps in which no object has such a method (\<open>no_toJSON\<close> below). \<open>collect\<close>
  gathers the results of the parts, or their first error.
\<close>

definition collect :: "('e + 'a) list \<Rightarrow> 'e + 'a list" where
  "collect rs =
     foldr (\<lambda>r acc. case r of
                       Inl e \<Rightarrow> Inl e
                     | Inr x \<Rightarrow> (case acc of Inl e \<Rightarrow> Inl e | Inr xs \<Rightarrow> Inr (x # xs)))
       rs (Inr [])"

definition members :: "string list \<Rightarrow> json option list \<Rightarrow> (string \<times> json) list" where
  "members ks ts = List.map_filter (\<lambda>(k, t). map_option (Pair k) t) (zip ks ts)"

definition elements :: "json option list \<Rightarrow> json list" where
  "elements ts = map (\<lambda>t. case t of None \<Rightarrow> JNull | Some j \<Rightarrow> j) ts"

definition array_values :: "jsval option list \<Rightarrow> jsval list" where
  "array_values els = map (\<lambda>e. case e of None \<Rightarrow> Undefined | Some x \<Rightarrow> x) els"

lemma stack_measure:
  "a < length h \<Longrightarrow> a \<notin> set st \<Longrightarrow>
   card ({..<length h} - set (a # st)) < card ({..<length h} - set st)"
  by (rule psubset_card_mono) auto

lemma cell_has_child:
  "cell h a = ArrayObj els nps \<Longrightarrow> x \<in> set (array_values els) \<Longrightarrow> a < length h"
  "cell h a = PlainObj ps \<Longrightarrow> y \<in> set (map snd (AList.clearjunk ps)) \<Longrightarrow> a < length h"
  by (auto simp: cell_def array_values_def split: if_splits)

function ser :: "heap \<Rightarrow> addr list \<Rightarrow> jsval \<Rightarrow> jserror + json option" where
  "ser h st Undefined = Inr None"
| "ser h st Null = Inr (Some JNull)"
| "ser h st (Bool b) = Inr (Some (JBool b))"
| "ser h st (Num (Fin x)) = Inr (Some (JNum x))"
| "ser h st (Num NaN) = Inr (Some JNull)"
| "ser h st (Num PosInf) = Inr (Some JNull)"
| "ser h st (Num NegInf) = Inr (Some JNull)"
| "ser h st (Str s) = Inr (Some (JStr s))"
| "ser h st (Sym d) = Inr None"
| "ser h st (Ref a) =
     (case cell h a of
        FunObj p n ps \<Rightarrow> Inr None
      | ArrayObj els nps \<Rightarrow>
          if a \<in> set st then Inl (TypeError ''Converting circular structure to JSON'')
          else (case collect (map (ser h (a # st)) (array_values els)) of
                  Inl e \<Rightarrow> Inl e
                | Inr ts \<Rightarrow> Inr (Some (JArr (elements ts))))
      | PlainObj ps \<Rightarrow>
          if a \<in> set st then Inl (TypeError ''Converting circular structure to JSON'')
          else (case collect (map (ser h (a # st)) (map snd (AList.clearjunk ps))) of
                  Inl e \<Rightarrow> Inl e
                | Inr ts \<Rightarrow> Inr (Some (JObj (members (map fst (AList.clearjunk ps)) ts)))))"
| "ser h st (BigInt n) = Inl (TypeError ''Do not know how to serialize a BigInt'')"
  by pat_completeness auto
termination
proof (relation "measure (\<lambda>(h, st, v). card ({..<length h} - set st))")
  show "wf (measure (\<lambda>(h, st, v). card ({..<length h} - set st)))" by simp
next
  fix h st a els nps x
  assume "cell h a = ArrayObj els nps" "a \<notin> set st" "x \<in> set (array_values els)"
  then show "((h, a # st, x), (h, st, Ref a)) \<in> measure (\<lambda>(h, st, v). card ({..<length h} - set st))"
    using stack_measure [of a h st] cell_has_child(1) [of h a els nps x] by simp
next
  fix h st a ps y
  assume "cell h a = PlainObj ps" "a \<notin> set st" "y \<in> set (map snd (AList.clearjunk ps))"
  then show "((h, a # st, y), (h, st, Ref a)) \<in> measure (\<lambda>(h, st, v). card ({..<length h} - set st))"
    using stack_measure [of a h st] cell_has_child(2) [of h a ps y] by simp
qed

declare ser.simps(10) [simp del]

definition JSON_stringify :: "heap \<Rightarrow> jsval \<Rightarrow> jserror + json option" where
  "JSON_stringify h v = ser h [] v"

text \<open>
  \<open>JSON.parse\<close> converts its argument to a string first: the text that
  \<open>JSON.stringify\<close> returned, or \<open>undefined\<close> for the value \<open>undefined\<close>, which is not a
  JSON text.
\<close>

fun to_text :: "json option \<Rightarrow> jstext" where
  "to_text (Some t) = JSONText t"
| "to_text None = NotJSON ''undefined''"

text \<open>
  \<^verbatim>\<open>
  export function cloneJSON(obj) {
    if (obj == null) { return obj; }
    return JSON.parse(JSON.stringify(obj));
  }
  \<close>
\<close>

definition cloneJSON :: "heap \<Rightarrow> jsval \<Rightarrow> jserror + jsval \<times> heap" where
  "cloneJSON h obj =
     (if is_nullish obj then Inr (obj, h)
      else (case JSON_stringify h obj of
              Inl e \<Rightarrow> Inl e
            | Inr r \<Rightarrow> JSON_parse h (to_text r)))"

text \<open>
  The argument \<open>onError\<close>: absent or falsy (\<open>NoCallback\<close>), a function, given by what it
  does with the error it is called with (it returns, \<open>None\<close>, or raises), or a truthy
  value that is not callable, whose call raises a \<open>TypeError\<close>.
  \<^verbatim>\<open>
  export function tryParseJSON(str, onError) {
    let result;
    try {
      result = JSON.parse(str);
    } catch (e) {
      if (onError) { onError(e); }
    }
    return result;
  }
  \<close>
  The model returns what the call returns or raises, the errors \<open>onError\<close> was called
  with, and the heap after the call.
\<close>

datatype callback = NoCallback | NotCallable | Callback "jserror \<Rightarrow> jserror option"

definition tryParseJSON ::
  "heap \<Rightarrow> jstext \<Rightarrow> callback \<Rightarrow> (jserror + jsval) \<times> jserror list \<times> heap" where
  "tryParseJSON h str onError =
     (case JSON_parse h str of
        Inr (v, h') \<Rightarrow> (Inr v, [], h')
      | Inl e \<Rightarrow>
          (case onError of
             NoCallback \<Rightarrow> (Inr Undefined, [], h)
           | NotCallable \<Rightarrow> (Inl (TypeError ''onError is not a function''), [], h)
           | Callback f \<Rightarrow>
               (case f e of
                  None \<Rightarrow> (Inr Undefined, [e], h)
                | Some e' \<Rightarrow> (Inl e', [e], h))))"

section \<open>Notions of the specification\<close>

text \<open>
  The words of the specification that the theorems below use. A callable is a function;
  \<open>and_then\<close> is the call of a function on the result of another, whose exception it
  passes on.
\<close>

fun is_callable :: "heap \<Rightarrow> jsval \<Rightarrow> bool" where
  "is_callable h (Ref a) = (case cell h a of FunObj p n ps \<Rightarrow> True | _ \<Rightarrow> False)"
| "is_callable h v = False"

fun is_plain_object :: "heap \<Rightarrow> jsval \<Rightarrow> bool" where
  "is_plain_object h (Ref a) = (case cell h a of PlainObj ps \<Rightarrow> True | _ \<Rightarrow> False)"
| "is_plain_object h v = False"

definition and_then :: "'e + 'a \<Rightarrow> ('a \<Rightarrow> 'e + 'b) \<Rightarrow> 'e + 'b" where
  "and_then r f = (case r of Inl e \<Rightarrow> Inl e | Inr x \<Rightarrow> f x)"







text \<open>
  The JSON value that a value of the heap denotes, if it is JSON-compatible: \<open>null\<close>, a
  boolean, a finite number, a string, or an array (without holes and without other
  properties than its elements) or plain object of the heap whose parts are
  JSON-compatible and which does not contain itself. Two values are deeply equal when
  they denote the same JSON value.
\<close>

function json_of :: "heap \<Rightarrow> addr list \<Rightarrow> jsval \<Rightarrow> json option" where
  "json_of h st Null = Some JNull"
| "json_of h st (Bool b) = Some (JBool b)"
| "json_of h st (Num (Fin x)) = Some (JNum x)"
| "json_of h st (Str s) = Some (JStr s)"
| "json_of h st Undefined = None"
| "json_of h st (Num NaN) = None"
| "json_of h st (Num PosInf) = None"
| "json_of h st (Num NegInf) = None"
| "json_of h st (Sym d) = None"
| "json_of h st (Ref a) =
     (if a < length h \<and> a \<notin> set st
      then (case h ! a of
              FunObj p n ps \<Rightarrow> None
            | ArrayObj els nps \<Rightarrow>
                (case those els of
                   None \<Rightarrow> None
                 | Some xs \<Rightarrow>
                     if nps = [] then map_option JArr (those (map (json_of h (a # st)) xs))
                     else None)
            | PlainObj ps \<Rightarrow>
                map_option (\<lambda>ts. JObj (zip (map fst (AList.clearjunk ps)) ts))
                  (those (map (json_of h (a # st)) (map snd (AList.clearjunk ps)))))
      else None)"
| "json_of h st (BigInt n) = None"
  by pat_completeness auto
termination
  by (relation "measure (\<lambda>(h, st, v). card ({..<length h} - set st))")
     (simp_all add: stack_measure del: set_simps)

declare json_of.simps(10) [simp del]

text \<open>
  \<open>JSON.stringify\<close> can traverse a value when no array or plain object is reached again
  below itself and no BigInt is reached; the properties of a function are not visited.
\<close>

function json_traversable :: "heap \<Rightarrow> addr list \<Rightarrow> jsval \<Rightarrow> bool" where
  "json_traversable h st (Ref a) =
     (case cell h a of
        FunObj p n ps \<Rightarrow> True
      | ArrayObj els nps \<Rightarrow>
          if a \<in> set st then False
          else list_all (json_traversable h (a # st)) (array_values els)
      | PlainObj ps \<Rightarrow>
          if a \<in> set st then False
          else list_all (json_traversable h (a # st)) (map snd (AList.clearjunk ps)))"
| "json_traversable h st (BigInt n) = False"
| "json_traversable h st Undefined = True"
| "json_traversable h st Null = True"
| "json_traversable h st (Bool b) = True"
| "json_traversable h st (Num n) = True"
| "json_traversable h st (Str s) = True"
| "json_traversable h st (Sym d) = True"
  by pat_completeness auto
termination
proof (relation "measure (\<lambda>(h, st, v). card ({..<length h} - set st))")
  show "wf (measure (\<lambda>(h, st, v). card ({..<length h} - set st)))" by simp
next
  fix h st a els nps x
  assume "cell h a = ArrayObj els nps" "a \<notin> set st" "x \<in> set (array_values els)"
  then show "((h, a # st, x), (h, st, Ref a)) \<in> measure (\<lambda>(h, st, v). card ({..<length h} - set st))"
    using stack_measure [of a h st] cell_has_child(1) [of h a els nps x] by simp
next
  fix h st a ps y
  assume "cell h a = PlainObj ps" "a \<notin> set st" "y \<in> set (map snd (AList.clearjunk ps))"
  then show "((h, a # st, y), (h, st, Ref a)) \<in> measure (\<lambda>(h, st, v). card ({..<length h} - set st))"
    using stack_measure [of a h st] cell_has_child(2) [of h a ps y] by simp
qed

declare json_traversable.simps(1) [simp del]

fun is_symbol :: "jsval \<Rightarrow> bool" where
  "is_symbol (Sym d) = True"
| "is_symbol v = False"

text \<open>A JSON text is normal when no object of it repeats a key.\<close>

fun json_normal :: "json \<Rightarrow> bool" where
  "json_normal (JArr ts) = (\<forall>t\<in>set ts. json_normal t)"
| "json_normal (JObj ms) = (distinct (map fst ms) \<and> (\<forall>m\<in>set ms. json_normal (snd m)))"
| "json_normal t = True"

text \<open>
  What the call of \<open>onError\<close> with an error does (it returns, \<open>None\<close>, or raises), and
  the calls of \<open>onError\<close> that a failed parse makes.
\<close>

fun callback_result :: "callback \<Rightarrow> jserror \<Rightarrow> jserror option" where
  "callback_result NoCallback e = None"
| "callback_result NotCallable e = Some (TypeError ''onError is not a function'')"
| "callback_result (Callback f) e = f e"

fun callback_calls :: "callback \<Rightarrow> jserror \<Rightarrow> jserror list" where
  "callback_calls (Callback f) e = [e]"
| "callback_calls c e = []"

text \<open>
  For the heap that \<open>JSON.parse\<close> builds: \<open>agrees H h h'\<close> says that the heap \<open>H\<close> has the
  cells that \<open>h'\<close> has beyond \<open>h\<close>, and \<open>avoids st h h'\<close> that no address of the stack is
  among them.
\<close>

definition agrees :: "heap \<Rightarrow> heap \<Rightarrow> heap \<Rightarrow> bool" where
  "agrees H h h' \<longleftrightarrow>
     length h' \<le> length H \<and> (\<forall>a. length h \<le> a \<and> a < length h' \<longrightarrow> H ! a = h' ! a)"

definition avoids :: "addr list \<Rightarrow> heap \<Rightarrow> heap \<Rightarrow> bool" where
  "avoids st h h' \<longleftrightarrow> (\<forall>a\<in>set st. a < length h \<or> length h' \<le> a)"

text \<open>
  What the serialization keeps of a value, in the words of the specification: a value
  is serializable unless it is \<open>undefined\<close>, a symbol or a function. \<open>json_degraded\<close> is
  the JSON value of a value that \<open>JSON.stringify\<close> can traverse, with the parts outside
  JSON dropped or coerced: a property of an object whose value is not serializable is
  dropped; an element of an array that is not serializable (or is a hole) becomes
  \<open>null\<close>; \<open>NaN\<close> and the infinities become \<open>null\<close>.
\<close>

definition is_serializable :: "heap \<Rightarrow> jsval \<Rightarrow> bool" where
  "is_serializable h v = (v \<noteq> Undefined \<and> \<not> is_symbol v \<and> \<not> is_callable h v)"

definition kept :: "heap \<Rightarrow> (string \<times> jsval) list \<Rightarrow> (string \<times> jsval) list" where
  "kept h ps = filter (\<lambda>p. is_serializable h (snd p)) (AList.clearjunk ps)"

lemma cell_has_kept: "cell h a = PlainObj ps \<Longrightarrow> y \<in> set (map snd (kept h ps)) \<Longrightarrow> a < length h"
  by (auto simp: cell_def kept_def split: if_splits)

function json_degraded :: "heap \<Rightarrow> addr list \<Rightarrow> jsval \<Rightarrow> json" where
  "json_degraded h st (Ref a) =
     (case cell h a of
        FunObj p n ps \<Rightarrow> JNull
      | ArrayObj els nps \<Rightarrow>
          if a \<in> set st then JNull
          else JArr (map (json_degraded h (a # st)) (array_values els))
      | PlainObj ps \<Rightarrow>
          if a \<in> set st then JNull
          else JObj (zip (map fst (kept h ps))
                       (map (json_degraded h (a # st)) (map snd (kept h ps)))))"
| "json_degraded h st (Bool b) = JBool b"
| "json_degraded h st (Num (Fin x)) = JNum x"
| "json_degraded h st (Str s) = JStr s"
| "json_degraded h st Null = JNull"
| "json_degraded h st Undefined = JNull"
| "json_degraded h st (Num NaN) = JNull"
| "json_degraded h st (Num PosInf) = JNull"
| "json_degraded h st (Num NegInf) = JNull"
| "json_degraded h st (Sym d) = JNull"
| "json_degraded h st (BigInt n) = JNull"
  by pat_completeness auto
termination
proof (relation "measure (\<lambda>(h, st, v). card ({..<length h} - set st))")
  show "wf (measure (\<lambda>(h, st, v). card ({..<length h} - set st)))" by simp
next
  fix h st a els nps x
  assume "cell h a = ArrayObj els nps" "a \<notin> set st" "x \<in> set (array_values els)"
  then show "((h, a # st, x), (h, st, Ref a)) \<in> measure (\<lambda>(h, st, v). card ({..<length h} - set st))"
    using stack_measure [of a h st] cell_has_child(1) [of h a els nps x] by simp
next
  fix h st a ps y
  assume "cell h a = PlainObj ps" "a \<notin> set st" "y \<in> set (map snd (kept h ps))"
  then show "((h, a # st, y), (h, st, Ref a)) \<in> measure (\<lambda>(h, st, v). card ({..<length h} - set st))"
    using stack_measure [of a h st] cell_has_kept [of h a ps y] by simp
qed

declare json_degraded.simps(1) [simp del]

text \<open>
  An object has a \<open>toJSON\<close> method when its own property of that name is a function;
  \<open>no_toJSON h\<close>: no object of the heap has one.
\<close>

fun props_of :: "hobj \<Rightarrow> (string \<times> jsval) list" where
  "props_of (PlainObj ps) = ps"
| "props_of (ArrayObj els nps) = nps"
| "props_of (FunObj p n ps) = ps"

definition has_toJSON :: "heap \<Rightarrow> hobj \<Rightarrow> bool" where
  "has_toJSON h obj =
     (case map_of (props_of obj) ''toJSON'' of None \<Rightarrow> False | Some v \<Rightarrow> is_callable h v)"

definition no_toJSON :: "heap \<Rightarrow> bool" where
  "no_toJSON h = list_all (\<lambda>obj. \<not> has_toJSON h obj) h"

section \<open>The flag conversions\<close>

lemma toUpperCase_Y_iff: "toUpperCase s = ''Y'' \<longleftrightarrow> s = ''Y'' \<or> s = ''y''"
  by (cases s) (auto simp: toUpperCase_def toUpperChar_def split: if_splits)

lemma toUpperCase_N_iff: "toUpperCase s = ''N'' \<longleftrightarrow> s = ''N'' \<or> s = ''n''"
  by (cases s) (auto simp: toUpperCase_def toUpperChar_def split: if_splits)

text \<open>
  Claim C1. \<open>boolToYN\<close> and \<open>ynToBool\<close> are mutual inverses over their domains: for
  every boolean \<open>b\<close>, \<open>ynToBool(boolToYN(b))\<close> is \<open>b\<close>; for every string \<open>s\<close> that is
  \<open>Y\<close> or \<open>N\<close> up to case, \<open>boolToYN(ynToBool(s))\<close> is \<open>s\<close> in upper case, which is \<open>Y\<close>
  or \<open>N\<close>.
\<close>

theorem boolToYN_ynToBool_inverse:
  "and_then (boolToYN (Bool b)) (\<lambda>s. ynToBool hs (Str s)) = Inr b \<and>
   (s \<in> {''Y'', ''y'', ''N'', ''n''} \<longrightarrow>
      and_then (ynToBool hs (Str s)) (\<lambda>b. boolToYN (Bool b)) = Inr (toUpperCase s) \<and>
      toUpperCase s \<in> {''Y'', ''N''})"
proof -
  have "and_then (boolToYN (Bool b)) (\<lambda>s. ynToBool hs (Str s)) = Inr b"
    by (cases b) (simp_all add: and_then_def ynToBool_def toUpperCase_Y_iff toUpperCase_N_iff)
  moreover have "and_then (ynToBool hs (Str s)) (\<lambda>b. boolToYN (Bool b)) = Inr (toUpperCase s) \<and>
      toUpperCase s \<in> {''Y'', ''N''}" if "s \<in> {''Y'', ''y'', ''N'', ''n''}"
  proof -
    from that have "toUpperCase s = ''Y'' \<or> toUpperCase s = ''N''"
      by (auto simp: toUpperCase_Y_iff toUpperCase_N_iff)
    then show ?thesis
      by (auto simp: and_then_def ynToBool_def Let_def)
  qed
  ultimately show ?thesis by blast
qed

theorem boolToYN_ynToBool_inverse_witness:
  "and_then (boolToYN (Bool True)) (\<lambda>s. ynToBool plain_host (Str s)) = Inr True \<and>
   ''n'' \<in> {''Y'', ''y'', ''N'', ''n''} \<and>
   and_then (ynToBool plain_host (Str ''n'')) (\<lambda>b. boolToYN (Bool b)) = Inr ''N''"
  using boolToYN_ynToBool_inverse [of True plain_host "''n''"]
  by (simp add: toUpperCase_def toUpperChar_def)

section \<open>The batch checks\<close>

lemma every_raises_iff:
  "js_every f vs = Inl e \<longleftrightarrow>
     (\<exists>pre v post. vs = pre @ v # post \<and> (\<forall>u\<in>set pre. f u = Inr True) \<and> f v = Inl e)"
  (is "?L vs \<longleftrightarrow> ?R vs")
proof (induction vs)
  case Nil
  then show ?case by simp
next
  case (Cons x xs)
  have step: "?R (x # xs) \<longleftrightarrow> f x = Inl e \<or> (f x = Inr True \<and> ?R xs)"
  proof
    assume "?R (x # xs)"
    then obtain pre v post
      where h: "x # xs = pre @ v # post" "\<forall>u\<in>set pre. f u = Inr True" "f v = Inl e"
      by blast
    show "f x = Inl e \<or> (f x = Inr True \<and> ?R xs)"
    proof (cases pre)
      case Nil
      with h show ?thesis by simp
    next
      case (Cons p ps)
      with h have "f x = Inr True" and "xs = ps @ v # post \<and> (\<forall>u\<in>set ps. f u = Inr True) \<and> f v = Inl e"
        by simp_all
      then show ?thesis by blast
    qed
  next
    assume "f x = Inl e \<or> (f x = Inr True \<and> ?R xs)"
    then show "?R (x # xs)"
    proof
      assume "f x = Inl e"
      then have "x # xs = [] @ x # xs \<and> (\<forall>u\<in>set []. f u = Inr True) \<and> f x = Inl e" by simp
      then show ?thesis by blast
    next
      assume a: "f x = Inr True \<and> ?R xs"
      then obtain pre v post
        where h: "xs = pre @ v # post" "\<forall>u\<in>set pre. f u = Inr True" "f v = Inl e"
        by blast
      with a have "x # xs = (x # pre) @ v # post \<and> (\<forall>u\<in>set (x # pre). f u = Inr True) \<and> f v = Inl e"
        by simp
      then show ?thesis by blast
    qed
  qed
  show ?case unfolding step using Cons.IH by (auto split: sum.splits)
qed

lemma some_raises_iff:
  "js_some f vs = Inl e \<longleftrightarrow>
     (\<exists>pre v post. vs = pre @ v # post \<and> (\<forall>u\<in>set pre. f u = Inr False) \<and> f v = Inl e)"
  (is "?L vs \<longleftrightarrow> ?R vs")
proof (induction vs)
  case Nil
  then show ?case by simp
next
  case (Cons x xs)
  have step: "?R (x # xs) \<longleftrightarrow> f x = Inl e \<or> (f x = Inr False \<and> ?R xs)"
  proof
    assume "?R (x # xs)"
    then obtain pre v post
      where h: "x # xs = pre @ v # post" "\<forall>u\<in>set pre. f u = Inr False" "f v = Inl e"
      by blast
    show "f x = Inl e \<or> (f x = Inr False \<and> ?R xs)"
    proof (cases pre)
      case Nil
      with h show ?thesis by simp
    next
      case (Cons p ps)
      with h have "f x = Inr False" and "xs = ps @ v # post \<and> (\<forall>u\<in>set ps. f u = Inr False) \<and> f v = Inl e"
        by simp_all
      then show ?thesis by blast
    qed
  next
    assume "f x = Inl e \<or> (f x = Inr False \<and> ?R xs)"
    then show "?R (x # xs)"
    proof
      assume "f x = Inl e"
      then have "x # xs = [] @ x # xs \<and> (\<forall>u\<in>set []. f u = Inr False) \<and> f x = Inl e" by simp
      then show ?thesis by blast
    next
      assume a: "f x = Inr False \<and> ?R xs"
      then obtain pre v post
        where h: "xs = pre @ v # post" "\<forall>u\<in>set pre. f u = Inr False" "f v = Inl e"
        by blast
      with a have "x # xs = (x # pre) @ v # post \<and> (\<forall>u\<in>set (x # pre). f u = Inr False) \<and> f v = Inl e"
        by simp
      then show ?thesis by blast
    qed
  qed
  show ?case unfolding step using Cons.IH by (auto split: sum.splits)
qed

lemma notYnToBool_Inr: "notYnToBool hs v = Inr b \<longleftrightarrow> ynToBool hs v = Inr (\<not> b)"
  by (auto simp: notYnToBool_def split: sum.splits)

lemma notYnToBool_Inl: "notYnToBool hs v = Inl e \<longleftrightarrow> ynToBool hs v = Inl e"
  by (auto simp: notYnToBool_def split: sum.splits)

text \<open>
  Claim C2, as stated: on every sequence with an element that is not a valid flag, each
  of the four checks raises. It fails: \<open>every\<close> and \<open>some\<close> stop at the first element
  that decides the result, and an invalid element after it is never converted.
  \<open>allY(['N', 'X'])\<close> returns \<open>false\<close>.
\<close>

theorem batch_invalid_counterexample:
  "ynToBool plain_host (Str ''X'') = Inl (Error ''The value argument must be \"Y\" or \"N\"'') \<and>
   allY plain_host [Str ''N'', Str ''X''] = Inr False"
  by (simp add: allY_def ynToBool_def toUpperCase_def toUpperChar_def)

text \<open>
  Claim C2, amended. A check raises exactly when an invalid element is reached before
  the traversal stops, and it raises the error of \<open>ynToBool\<close> on that element: for
  \<open>allY\<close> and \<open>someN\<close>, when every element before it is a \<open>Y\<close> flag; for \<open>allN\<close> and
  \<open>someY\<close>, when every element before it is an \<open>N\<close> flag.
\<close>

theorem batch_raises_iff:
  "(allY hs vs = Inl e \<longleftrightarrow>
      (\<exists>pre v post. vs = pre @ v # post \<and> (\<forall>u\<in>set pre. ynToBool hs u = Inr True) \<and>
         ynToBool hs v = Inl e)) \<and>
   (someN hs vs = Inl e \<longleftrightarrow>
      (\<exists>pre v post. vs = pre @ v # post \<and> (\<forall>u\<in>set pre. ynToBool hs u = Inr True) \<and>
         ynToBool hs v = Inl e)) \<and>
   (allN hs vs = Inl e \<longleftrightarrow>
      (\<exists>pre v post. vs = pre @ v # post \<and> (\<forall>u\<in>set pre. ynToBool hs u = Inr False) \<and>
         ynToBool hs v = Inl e)) \<and>
   (someY hs vs = Inl e \<longleftrightarrow>
      (\<exists>pre v post. vs = pre @ v # post \<and> (\<forall>u\<in>set pre. ynToBool hs u = Inr False) \<and>
         ynToBool hs v = Inl e))"
  unfolding allY_def someN_def allN_def someY_def every_raises_iff some_raises_iff
  by (simp add: notYnToBool_Inr notYnToBool_Inl)

theorem batch_raises_iff_witness:
  "allY plain_host [Str ''y'', Str ''X'', Str ''N''] =
     Inl (Error ''The value argument must be \"Y\" or \"N\"'') \<and>
   (\<exists>pre v post. [Str ''y'', Str ''X'', Str ''N''] = pre @ v # post \<and>
      (\<forall>u\<in>set pre. ynToBool plain_host u = Inr True) \<and>
      ynToBool plain_host v = Inl (Error ''The value argument must be \"Y\" or \"N\"'')) \<and>
   someY plain_host [Str ''n'', Str ''N'', Num NaN] =
     Inl (Error ''The value argument must be \"Y\" or \"N\"'') \<and>
   (\<exists>pre v post. [Str ''n'', Str ''N'', Num NaN] = pre @ v # post \<and>
      (\<forall>u\<in>set pre. ynToBool plain_host u = Inr False) \<and>
      ynToBool plain_host v = Inl (Error ''The value argument must be \"Y\" or \"N\"''))"
proof -
  have "allY plain_host [Str ''y'', Str ''X'', Str ''N''] =
     Inl (Error ''The value argument must be \"Y\" or \"N\"'')"
    by (simp add: allY_def ynToBool_def toUpperCase_def toUpperChar_def)
  moreover have "someY plain_host [Str ''n'', Str ''N'', Num NaN] =
     Inl (Error ''The value argument must be \"Y\" or \"N\"'')"
    by (simp add: someY_def ynToBool_def toUpperCase_def toUpperChar_def)
  ultimately show ?thesis
    using batch_raises_iff [of plain_host "[Str ''y'', Str ''X'', Str ''N'']"
        "Error ''The value argument must be \"Y\" or \"N\"''"]
      batch_raises_iff [of plain_host "[Str ''n'', Str ''N'', Num NaN]"
        "Error ''The value argument must be \"Y\" or \"N\"''"]
    by simp
qed

text \<open>
  Claim C9. On the empty sequence \<open>allY\<close> and \<open>allN\<close> return \<open>true\<close>, and \<open>someY\<close> and
  \<open>someN\<close> return \<open>false\<close>.
\<close>

theorem batch_empty:
  "allY hs [] = Inr True \<and> allN hs [] = Inr True \<and>
   someY hs [] = Inr False \<and> someN hs [] = Inr False"
  by (simp add: allY_def allN_def someY_def someN_def)

lemma some_not_dual:
  "js_some (notYnToBool hs) vs =
     (case js_every (ynToBool hs) vs of Inl e \<Rightarrow> Inl e | Inr b \<Rightarrow> Inr (\<not> b))"
  by (induction vs) (auto simp: notYnToBool_def split: sum.splits)

lemma some_dual:
  "js_some (ynToBool hs) vs =
     (case js_every (notYnToBool hs) vs of Inl e \<Rightarrow> Inl e | Inr b \<Rightarrow> Inr (\<not> b))"
  by (induction vs) (auto simp: notYnToBool_def split: sum.splits)

text \<open>
  Claim C10. The checks are dual: where the calls return, \<open>allY(values)\<close> is
  \<open>!someN(values)\<close> and \<open>allN(values)\<close> is \<open>!someY(values)\<close>; and one member of a pair
  raises exactly when the other does, with the same error.
\<close>

theorem batch_duality:
  "(allY hs vs = Inr b \<longleftrightarrow> someN hs vs = Inr (\<not> b)) \<and>
   (allY hs vs = Inl e \<longleftrightarrow> someN hs vs = Inl e) \<and>
   (allN hs vs = Inr b \<longleftrightarrow> someY hs vs = Inr (\<not> b)) \<and>
   (allN hs vs = Inl e \<longleftrightarrow> someY hs vs = Inl e)"
  unfolding allY_def someN_def allN_def someY_def some_not_dual some_dual
  by (auto split: sum.splits)

section \<open>\<open>isArrayLike\<close>\<close>

lemma typeof_function_iff: "typeof h v = ''function'' \<longleftrightarrow> is_callable h v"
  by (cases v) (auto split: hobj.splits)

lemma nonneg_integer_iff:
  "js_ge n (Fin 0) \<and> js_num_eq (js_rem n (Fin 1)) (Fin 0) \<longleftrightarrow> (\<exists>k::nat. n = Fin (real k))"
proof (cases n)
  case (Fin x)
  have "(0 \<le> x \<and> x - of_int (trunc x) = 0) \<longleftrightarrow> (\<exists>k::nat. x = real k)"
  proof
    assume a: "0 \<le> x \<and> x - of_int (trunc x) = 0"
    then have "x = of_int \<lfloor>x\<rfloor>" by (auto simp: trunc_def)
    moreover from a have "0 \<le> \<lfloor>x\<rfloor>" by simp
    ultimately have "x = real (nat \<lfloor>x\<rfloor>)" by simp
    then show "\<exists>k::nat. x = real k" ..
  next
    assume "\<exists>k::nat. x = real k"
    then obtain k :: nat where "x = real k" ..
    then show "0 \<le> x \<and> x - of_int (trunc x) = 0" by (simp add: trunc_def)
  qed
  with Fin show ?thesis by simp
qed simp_all

text \<open>
  Claim C7. \<open>isArrayLike(obj)\<close> is true exactly when \<open>obj\<close> is not \<open>null\<close> or
  \<open>undefined\<close>, is not a callable and has a \<open>length\<close> whose value is a non-negative
  integer; so it is true of every array and false of every function.
\<close>

theorem isArrayLike_iff:
  "(isArrayLike h obj \<longleftrightarrow>
      \<not> is_nullish obj \<and> \<not> is_callable h obj \<and>
      (\<exists>k::nat. get_length h obj = Num (Fin (real k)))) \<and>
   (isArray h obj \<longrightarrow> isArrayLike h obj) \<and>
   (is_callable h obj \<longrightarrow> \<not> isArrayLike h obj)"
proof -
  have main: "isArrayLike h obj \<longleftrightarrow>
      \<not> is_nullish obj \<and> \<not> is_callable h obj \<and>
      (\<exists>k::nat. get_length h obj = Num (Fin (real k)))"
  proof (cases "get_length h obj")
    case (Num n)
    then show ?thesis
      using nonneg_integer_iff [of n]
      by (simp add: isArrayLike_def typeof_function_iff)
  qed (simp_all add: isArrayLike_def)
  have arr: "isArrayLike h obj" if "isArray h obj"
  proof -
    from that obtain a els nps where "obj = Ref a" "cell h a = ArrayObj els nps"
      by (cases obj) (auto split: hobj.splits)
    then show ?thesis unfolding main by auto
  qed
  from main arr show ?thesis by simp
qed

theorem isArrayLike_iff_witness:
  "isArray [ArrayObj [Some (Str ''a'')] []] (Ref 0) \<and> isArrayLike [ArrayObj [Some (Str ''a'')] []] (Ref 0) \<and>
   is_callable [FunObj WritableProto 2 []] (Ref 0) \<and> \<not> isArrayLike [FunObj WritableProto 2 []] (Ref 0)"
  using isArrayLike_iff [of "[ArrayObj [Some (Str ''a'')] []]" "Ref 0"] isArrayLike_iff [of "[FunObj WritableProto 2 []]" "Ref 0"]
  by (simp add: cell_def)

section \<open>\<open>isEmptyData\<close>\<close>

lemma trim_empty_iff: "trim s = [] \<longleftrightarrow> list_all is_space s"
proof -
  define ys where "ys = dropWhile is_space s"
  have "(\<forall>c\<in>set ys. is_space c) \<longleftrightarrow> ys = []"
  proof (cases ys)
    case Nil
    then show ?thesis by simp
  next
    case (Cons c cs)
    then have "\<not> is_space c" using hd_dropWhile [of is_space s] by (simp add: ys_def)
    with Cons show ?thesis by auto
  qed
  moreover have "trim s = [] \<longleftrightarrow> (\<forall>c\<in>set ys. is_space c)"
    unfolding trim_def ys_def [symmetric] by simp
  moreover have "ys = [] \<longleftrightarrow> (\<forall>c\<in>set s. is_space c)"
    unfolding ys_def by simp
  ultimately show ?thesis by (simp add: list_all_iff)
qed

lemma no_own_key_for_in: "no_own_key h v (for_in_keys h v) \<longleftrightarrow> own_entries h v = []"
proof -
  have "no_own_key h v ks \<longleftrightarrow> ks = []" if "set ks \<subseteq> set (for_in_keys h v)" for ks
    using that by (induction ks) (auto simp: hasOwnProp_def)
  from this [of "for_in_keys h v"] show ?thesis by (simp add: for_in_keys_def)
qed

text \<open>
  Claim C4, as stated: \<open>isEmptyData\<close> is true of every array-like sequence of length
  zero. It fails: the function tests \<open>Array.isArray\<close>, and an array-like that is not an
  array is judged by its own properties. \<open>{length: 0}\<close> is array-like (by
  \<open>isArrayLike\<close>) with length zero, has an own property and is not empty data.
\<close>

theorem isEmptyData_array_like_counterexample:
  "isArrayLike [PlainObj [(''length'', Num (Fin 0))]] (Ref 0) \<and>
   get_length [PlainObj [(''length'', Num (Fin 0))]] (Ref 0) = Num (Fin 0) \<and>
   isEmptyData [PlainObj [(''length'', Num (Fin 0))]] (Ref 0) = False"
  by (simp add: isArrayLike_def isEmptyData_def cell_def isObject_def for_in_keys_def
      hasOwnProp_def trunc_def)

text \<open>
  Claim C4, amended. \<open>isEmptyData(value)\<close> is true exactly when \<open>value\<close> is \<open>null\<close> or
  \<open>undefined\<close>, or a string that is empty or all white space, or an array of length
  zero, or a plain object with no own enumerable property; it is false of every other
  value.
\<close>

theorem isEmptyData_iff:
  "isEmptyData h v \<longleftrightarrow>
     is_nullish v \<or>
     (\<exists>s. v = Str s \<and> list_all is_space s) \<or>
     (isArray h v \<and> get_length h v = Num (Fin 0)) \<or>
     (is_plain_object h v \<and> own_entries h v = [])"
proof (cases v)
  case (Ref a)
  then show ?thesis
    by (cases "cell h a") (simp_all add: isEmptyData_def isObject_def no_own_key_for_in)
qed (simp_all add: isEmptyData_def isObject_def trim_empty_iff)

theorem isEmptyData_iff_witness:
  "isEmptyData [] Null \<and> isEmptyData [] Undefined \<and> isEmptyData [] (Str []) \<and>
   isEmptyData [] (Str ''   '') \<and> isEmptyData [ArrayObj [] []] (Ref 0) \<and>
   isEmptyData [PlainObj []] (Ref 0) \<and>
   \<not> isEmptyData [PlainObj [(''a'', Num (Fin 1))]] (Ref 0) \<and>
   \<not> isEmptyData [ArrayObj [Some (Num (Fin 1))] []] (Ref 0) \<and>
   \<not> isEmptyData [] (Num (Fin 0)) \<and> \<not> isEmptyData [] (Bool False)"
  using isEmptyData_iff [of "[]" Null] isEmptyData_iff [of "[]" Undefined]
    isEmptyData_iff [of "[]" "Str []"] isEmptyData_iff [of "[]" "Str ''   ''"]
    isEmptyData_iff [of "[ArrayObj [] []]" "Ref 0"] isEmptyData_iff [of "[PlainObj []]" "Ref 0"]
    isEmptyData_iff [of "[PlainObj [(''a'', Num (Fin 1))]]" "Ref 0"]
    isEmptyData_iff [of "[ArrayObj [Some (Num (Fin 1))] []]" "Ref 0"]
    isEmptyData_iff [of "[]" "Num (Fin 0)"] isEmptyData_iff [of "[]" "Bool False"]
  by (simp add: cell_def is_space_def)

section \<open>\<open>extend\<close>\<close>

subsection \<open>Array indices\<close>











subsection \<open>One assignment\<close>








subsection \<open>The copy of one source\<close>







subsection \<open>The loop over the sources\<close>






subsection \<open>A primitive target\<close>




subsection \<open>The contract of \<open>extend\<close>\<close>



section \<open>\<open>tryParseJSON\<close>\<close>

text \<open>
  Claim C6, as stated: \<open>tryParseJSON\<close> never raises an error to its caller. It fails:
  \<open>onError\<close> is called inside the \<open>catch\<close> block, unprotected, so what it raises reaches
  the caller. \<open>tryParseJSON('not json', function (e) { throw e; })\<close> raises.
\<close>

theorem tryParseJSON_raises_counterexample:
  "tryParseJSON [] (NotJSON ''not json'') (Callback (\<lambda>e. Some e)) =
     (Inl (SyntaxError ''not json''), [SyntaxError ''not json''], [])"
  by (simp add: tryParseJSON_def JSON_parse_def)

text \<open>
  Claim C6, amended. The error of the parse never reaches the caller. On a successful
  parse \<open>tryParseJSON\<close> returns the parsed value and does not call \<open>onError\<close>. On a
  failed parse it calls \<open>onError\<close>, when one is supplied, once and with the parse error,
  and returns \<open>undefined\<close> when no \<open>onError\<close> is supplied or the call returns; it raises
  exactly what the call of \<open>onError\<close> raises.
\<close>

theorem tryParseJSON_contract:
  "(JSON_parse h str = Inr (v, h') \<longrightarrow> tryParseJSON h str onError = (Inr v, [], h')) \<and>
   (JSON_parse h str = Inl e \<longrightarrow>
      fst (snd (tryParseJSON h str onError)) = callback_calls onError e \<and>
      snd (snd (tryParseJSON h str onError)) = h \<and>
      (callback_result onError e = None \<longrightarrow> fst (tryParseJSON h str onError) = Inr Undefined) \<and>
      (\<forall>e'. callback_result onError e = Some e' \<longrightarrow> fst (tryParseJSON h str onError) = Inl e'))"
  by (cases onError) (auto simp: tryParseJSON_def split: option.splits)

theorem tryParseJSON_contract_witness:
  "JSON_parse [] (JSONText (JObj [(''a'', JNum 1)])) = Inr (Ref 0, [PlainObj [(''a'', Num (Fin 1))]]) \<and>
   tryParseJSON [] (JSONText (JObj [(''a'', JNum 1)])) NoCallback =
     (Inr (Ref 0), [], [PlainObj [(''a'', Num (Fin 1))]]) \<and>
   JSON_parse [] (NotJSON ''not json'') = Inl (SyntaxError ''not json'') \<and>
   callback_result (Callback (\<lambda>e. None)) (SyntaxError ''not json'') = None \<and>
   tryParseJSON [] (NotJSON ''not json'') (Callback (\<lambda>e. None)) =
     (Inr Undefined, [SyntaxError ''not json''], []) \<and>
   callback_result NoCallback (SyntaxError ''not json'') = None \<and>
   tryParseJSON [] (NotJSON ''not json'') NoCallback = (Inr Undefined, [], []) \<and>
   callback_result (Callback (\<lambda>e. Some (Error ''handler''))) (SyntaxError ''not json'') =
     Some (Error ''handler'') \<and>
   tryParseJSON [] (NotJSON ''not json'') (Callback (\<lambda>e. Some (Error ''handler''))) =
     (Inl (Error ''handler''), [SyntaxError ''not json''], [])"
  using tryParseJSON_contract [where h = "[]" and str = "JSONText (JObj [(''a'', JNum 1)])" and v = "Ref 0"
        and h' = "[PlainObj [(''a'', Num (Fin 1))]]" and onError = NoCallback]
    tryParseJSON_contract [where h = "[]" and str = "NotJSON ''not json''" and e = "SyntaxError ''not json''"
        and onError = "Callback (\<lambda>e. None)"]
    tryParseJSON_contract [where h = "[]" and str = "NotJSON ''not json''" and e = "SyntaxError ''not json''"
        and onError = NoCallback]
    tryParseJSON_contract [where h = "[]" and str = "NotJSON ''not json''" and e = "SyntaxError ''not json''"
        and onError = "Callback (\<lambda>e. Some (Error ''handler''))"]
  by (simp add: JSON_parse_def tryParseJSON_def)


section \<open>\<open>cloneJSON\<close>\<close>

lemma collect_Nil [simp]: "collect [] = Inr []"
  by (simp add: collect_def)

lemma collect_Cons [simp]:
  "collect (r # rs) =
     (case r of Inl e \<Rightarrow> Inl e
      | Inr x \<Rightarrow> (case collect rs of Inl e \<Rightarrow> Inl e | Inr xs \<Rightarrow> Inr (x # xs)))"
  by (cases r) (simp_all add: collect_def)

lemma collect_Inr_iff: "(\<exists>xs. collect rs = Inr xs) \<longleftrightarrow> (\<forall>r\<in>set rs. \<exists>x. r = Inr x)"
  by (induction rs) (auto split: sum.splits)

lemma collect_Inl: "collect rs = Inl e \<Longrightarrow> Inl e \<in> set rs"
  by (induction rs) (auto split: sum.splits)

lemma collect_map_Inr: "collect (map Inr xs) = Inr xs"
  by (induction xs) auto

lemma in_set_mapE: "y \<in> set (map f xs) \<Longrightarrow> \<exists>x\<in>set xs. f x = y"
  by auto


lemma build_extends:
  "build h t = (v, h') \<Longrightarrow> \<exists>h2. h' = h @ h2"
  "build_list h ts = (vs, h') \<Longrightarrow> \<exists>h2. h' = h @ h2"
  "build_members h ms ps = (qs, h') \<Longrightarrow> \<exists>h2. h' = h @ h2"
proof (induction h t and h ts and h ms ps arbitrary: v h' and vs h' and qs h'
    rule: build_build_list_build_members.induct)
  case (5 h ts)
  then show ?case by (auto split: prod.splits; metis append.assoc)
next
  case (6 h ms)
  then show ?case by (auto split: prod.splits; metis append.assoc)
next
  case (8 h t ts)
  then show ?case by (auto split: prod.splits; metis append.assoc)
next
  case (10 h k t ms ps)
  then show ?case by (auto split: prod.splits; metis)
qed auto

lemma those_eq_Some: "those xs = Some ys \<longleftrightarrow> xs = map Some ys"
  by (induction xs arbitrary: ys) (auto split: option.splits)

lemma those_map_Some [simp]: "those (map Some xs) = Some xs"
  by (simp add: those_eq_Some)

lemma array_values_Some [simp]: "array_values (map Some xs) = xs"
  by (induction xs) (simp_all add: array_values_def)

lemma map_pointwise:
  "map f xs = map g ys \<Longrightarrow> (\<And>x y. x \<in> set xs \<Longrightarrow> f x = g y \<Longrightarrow> f' x = g' y) \<Longrightarrow>
   map f' xs = map g' ys"
proof (induction xs arbitrary: ys)
  case Nil
  then show ?case by simp
next
  case (Cons x xs)
  then obtain y ys' where "ys = y # ys'" by (cases ys) auto
  with Cons show ?case by auto
qed

lemma members_Some: "length ks = length ts \<Longrightarrow> members ks (map Some ts) = zip ks ts"
proof (induction ks arbitrary: ts)
  case Nil
  then show ?case by (simp add: members_def List.map_filter_def)
next
  case (Cons k ks)
  then obtain t ts' where "ts = t # ts'" by (cases ts) auto
  with Cons show ?case by (simp add: members_def List.map_filter_def)
qed

lemma elements_Some: "elements (map Some ts) = ts"
  by (induction ts) (simp_all add: elements_def)

lemma ser_json_of: "json_of h st v = Some t \<Longrightarrow> ser h st v = Inr (Some t)"
proof (induction h st v arbitrary: t rule: json_of.induct)
  case (10 h st a)
  from "10.prems" have a: "a < length h \<and> a \<notin> set st"
    by (auto simp: json_of.simps(10) split: if_splits)
  then have c: "cell h a = h ! a" by (simp add: cell_def)
  show ?case
  proof (cases "h ! a")
    case (PlainObj ps)
    let ?cj = "AList.clearjunk ps"
    from "10.prems" a PlainObj obtain ts
      where ts: "those (map (json_of h (a # st)) (map snd ?cj)) = Some ts"
        and t: "t = JObj (zip (map fst ?cj) ts)"
      by (auto simp: json_of.simps(10))
    from ts have m: "map (json_of h (a # st)) (map snd ?cj) = map Some ts"
      by (simp add: those_eq_Some)
    then have len: "length (map fst ?cj) = length ts"
      using map_eq_imp_length_eq by fastforce
    have "map (ser h (a # st)) (map snd ?cj) = map (\<lambda>t. Inr (Some t)) ts"
      using m "10.IH"(1) [OF a PlainObj] by (rule map_pointwise)
    then have "collect (map (ser h (a # st)) (map snd ?cj)) = Inr (map Some ts)"
      using collect_map_Inr [of "map Some ts"] by (simp add: comp_def)
    with a c PlainObj t len show ?thesis
      by (simp add: ser.simps(10) members_Some)
  next
    case (ArrayObj els nps)
    from "10.prems" a ArrayObj obtain xs ts
      where xs: "those els = Some xs" and nps: "nps = []"
        and ts: "those (map (json_of h (a # st)) xs) = Some ts" and t: "t = JArr ts"
      by (auto simp: json_of.simps(10) split: option.splits if_splits)
    from xs have els: "els = map Some xs" by (simp add: those_eq_Some)
    from ts have m: "map (json_of h (a # st)) xs = map Some ts"
      by (simp add: those_eq_Some)
    have "map (ser h (a # st)) xs = map (\<lambda>t. Inr (Some t)) ts"
      using m "10.IH"(2) [OF a ArrayObj xs nps] by (rule map_pointwise)
    then have "collect (map (ser h (a # st)) xs) = Inr (map Some ts)"
      using collect_map_Inr [of "map Some ts"] by (simp add: comp_def)
    with a c ArrayObj t els show ?thesis
      by (simp add: ser.simps(10) elements_Some)
  next
    case (FunObj p n ps)
    with "10.prems" a show ?thesis by (simp add: json_of.simps(10))
  qed
qed simp_all

lemma json_of_normal: "json_of h st v = Some t \<Longrightarrow> json_normal t"
proof (induction h st v arbitrary: t rule: json_of.induct)
  case (10 h st a)
  from "10.prems" have a: "a < length h \<and> a \<notin> set st"
    by (auto simp: json_of.simps(10) split: if_splits)
  show ?case
  proof (cases "h ! a")
    case (PlainObj ps)
    let ?cj = "AList.clearjunk ps"
    from "10.prems" a PlainObj obtain ts
      where ts: "those (map (json_of h (a # st)) (map snd ?cj)) = Some ts"
        and t: "t = JObj (zip (map fst ?cj) ts)"
      by (auto simp: json_of.simps(10))
    from ts have m: "map (json_of h (a # st)) (map snd ?cj) = map Some ts"
      by (simp add: those_eq_Some)
    then have len: "length (map fst ?cj) = length ts"
      using map_eq_imp_length_eq by fastforce
    have "json_normal t'" if "t' \<in> set ts" for t'
    proof -
      from that have "Some t' \<in> set (map (json_of h (a # st)) (map snd ?cj))"
        unfolding m by simp
      then obtain y where "y \<in> set (map snd ?cj)" "json_of h (a # st) y = Some t'"
        using in_set_mapE by metis
      then show ?thesis using "10.IH"(1) [OF a PlainObj] by blast
    qed
    moreover have "distinct (map fst (zip (map fst ?cj) ts))"
      using len by simp
    ultimately show ?thesis
      unfolding t by (auto dest: set_zip_rightD)
  next
    case (ArrayObj els nps)
    from "10.prems" a ArrayObj obtain xs ts
      where xs: "those els = Some xs" and nps: "nps = []"
        and ts: "those (map (json_of h (a # st)) xs) = Some ts" and t: "t = JArr ts"
      by (auto simp: json_of.simps(10) split: option.splits if_splits)
    from xs have els: "els = map Some xs" by (simp add: those_eq_Some)
    from ts have m: "map (json_of h (a # st)) xs = map Some ts"
      by (simp add: those_eq_Some)
    have "json_normal t'" if "t' \<in> set ts" for t'
    proof -
      from that have "Some t' \<in> set (map (json_of h (a # st)) xs)"
        unfolding m by simp
      then obtain x where "x \<in> set xs" "json_of h (a # st) x = Some t'"
        using in_set_mapE by metis
      then show ?thesis using "10.IH"(2) [OF a ArrayObj xs nps] by blast
    qed
    then show ?thesis unfolding t by simp
  next
    case (FunObj p n ps)
    with "10.prems" a show ?thesis by (simp add: json_of.simps(10))
  qed
qed auto

lemma json_of_append: "json_of h st v = Some t \<Longrightarrow> json_of (h @ h3) st v = Some t"
proof (induction h st v arbitrary: t rule: json_of.induct)
  case (10 h st a)
  from "10.prems" have a: "a < length h \<and> a \<notin> set st"
    by (auto simp: json_of.simps(10) split: if_splits)
  then have c: "(h @ h3) ! a = h ! a" by (simp add: nth_append)
  show ?case
  proof (cases "h ! a")
    case (PlainObj ps)
    let ?cj = "AList.clearjunk ps"
    from "10.prems" a PlainObj obtain ts
      where ts: "those (map (json_of h (a # st)) (map snd ?cj)) = Some ts"
        and t: "t = JObj (zip (map fst ?cj) ts)"
      by (auto simp: json_of.simps(10))
    from ts have m: "map (json_of h (a # st)) (map snd ?cj) = map Some ts"
      by (simp add: those_eq_Some)
    have "map (json_of (h @ h3) (a # st)) (map snd ?cj) = map Some ts"
      using m "10.IH"(1) [OF a PlainObj] by (rule map_pointwise)
    with a c PlainObj t show ?thesis
      by (simp add: json_of.simps(10) [of "h @ h3"] those_eq_Some)
  next
    case (ArrayObj els nps)
    from "10.prems" a ArrayObj obtain xs ts
      where xs: "those els = Some xs" and nps: "nps = []"
        and ts: "those (map (json_of h (a # st)) xs) = Some ts" and t: "t = JArr ts"
      by (auto simp: json_of.simps(10) split: option.splits if_splits)
    from xs have els: "els = map Some xs" by (simp add: those_eq_Some)
    from ts have m: "map (json_of h (a # st)) xs = map Some ts"
      by (simp add: those_eq_Some)
    have "map (json_of (h @ h3) (a # st)) xs = map Some ts"
      using m "10.IH"(2) [OF a ArrayObj xs nps] by (rule map_pointwise)
    with a c ArrayObj t els nps show ?thesis
      by (simp add: json_of.simps(10) [of "h @ h3"] those_eq_Some)
  next
    case (FunObj p n ps)
    with "10.prems" a show ?thesis by (simp add: json_of.simps(10))
  qed
qed simp_all


lemma update_fresh: "k \<notin> fst ` set ps \<Longrightarrow> AList.update k v ps = ps @ [(k, v)]"
  by (induction ps) auto

lemma foldl_update_fresh:
  "distinct ks \<Longrightarrow> set ks \<inter> fst ` set ps = {} \<Longrightarrow> length ks = length vs \<Longrightarrow>
   foldl (\<lambda>ps (k, v). AList.update k v ps) ps (zip ks vs) = ps @ zip ks vs"
proof (induction ks arbitrary: ps vs)
  case Nil
  then show ?case by simp
next
  case (Cons k ks)
  then obtain v vs' where vs: "vs = v # vs'" by (cases vs) auto
  from Cons.prems have k: "k \<notin> fst ` set ps" by auto
  from Cons.prems have "set ks \<inter> fst ` set (ps @ [(k, v)]) = {}" by auto
  with Cons vs have "foldl (\<lambda>ps (k, v). AList.update k v ps) (ps @ [(k, v)]) (zip ks vs')
      = (ps @ [(k, v)]) @ zip ks vs'"
    by simp
  with vs k show ?case by (simp add: update_fresh)
qed

lemma agrees_shorter: "agrees H h (h1 @ x) \<Longrightarrow> agrees H h h1"
  by (auto simp: agrees_def nth_append)

lemma agrees_later: "agrees H h h2 \<Longrightarrow> length h \<le> length h1 \<Longrightarrow> agrees H h1 h2"
  by (auto simp: agrees_def)

lemma avoids_shorter: "avoids st h (h1 @ x) \<Longrightarrow> avoids st h h1"
  by (auto simp: avoids_def)

lemma avoids_later: "avoids st h h2 \<Longrightarrow> length h \<le> length h1 \<Longrightarrow> avoids st h1 h2"
  by (auto simp: avoids_def)

lemma avoids_push:
  "avoids st h (h1 @ [c]) \<Longrightarrow> length h \<le> length h1 \<Longrightarrow>
   avoids (length h1 # st) h h1 \<and> length h1 \<notin> set st"
  by (auto simp: avoids_def)

lemma agrees_last:
  "agrees H h (h1 @ [c]) \<Longrightarrow> length h \<le> length h1 \<Longrightarrow> length h1 < length H \<and> H ! length h1 = c"
  by (auto simp: agrees_def)

lemma build_denotes:
  "build h t = (v, h') \<Longrightarrow> json_normal t \<Longrightarrow> agrees H h h' \<Longrightarrow> avoids st h h' \<Longrightarrow>
     json_of H st v = Some t"
  "build_list h ts = (vs, h') \<Longrightarrow> (\<forall>t\<in>set ts. json_normal t) \<Longrightarrow> agrees H h h' \<Longrightarrow>
     avoids st h h' \<Longrightarrow> map (json_of H st) vs = map Some ts"
  "build_members h ms ps = (qs, h') \<Longrightarrow> (\<forall>m\<in>set ms. json_normal (snd m)) \<Longrightarrow>
     \<exists>vs. length vs = length ms \<and>
       qs = foldl (\<lambda>ps (k, v). AList.update k v ps) ps (zip (map fst ms) vs) \<and>
       (\<forall>H st. agrees H h h' \<longrightarrow> avoids st h h' \<longrightarrow>
          map (json_of H st) vs = map Some (map snd ms))"
proof (induction h t and h ts and h ms ps arbitrary: v h' H st and vs h' H st and qs h'
    rule: build_build_list_build_members.induct)
  case (5 h ts)
  obtain vs h1 where b: "build_list h ts = (vs, h1)" by (cases "build_list h ts")
  with "5.prems"(1) have v: "v = Ref (length h1)" and h': "h' = h1 @ [ArrayObj (map Some vs) []]" by auto
  from b obtain y where "h1 = h @ y" using build_extends(2) by blast
  then have le: "length h \<le> length h1" by simp
  from "5.prems"(3) h' le have cellH: "length h1 < length H \<and> H ! length h1 = ArrayObj (map Some vs) []"
    using agrees_last by blast
  from "5.prems"(4) h' le have av: "avoids (length h1 # st) h h1 \<and> length h1 \<notin> set st"
    using avoids_push by blast
  from "5.prems"(3) h' have ag: "agrees H h h1" using agrees_shorter by blast
  from "5.prems"(2) have "\<forall>t\<in>set ts. json_normal t" by simp
  from "5.IH" [OF b this ag] av
  have "map (json_of H (length h1 # st)) vs = map Some ts" by blast
  with cellH av v show ?case by (simp add: json_of.simps(10) those_eq_Some)
next
  case (6 h ms)
  obtain ps h1 where b: "build_members h ms [] = (ps, h1)" by (cases "build_members h ms []")
  with "6.prems"(1) have v: "v = Ref (length h1)" and h': "h' = h1 @ [PlainObj ps]" by auto
  from b obtain y where "h1 = h @ y" using build_extends(3) by blast
  then have le: "length h \<le> length h1" by simp
  from "6.prems"(3) h' le have cellH: "length h1 < length H \<and> H ! length h1 = PlainObj ps"
    using agrees_last by blast
  from "6.prems"(4) h' le have av: "avoids (length h1 # st) h h1 \<and> length h1 \<notin> set st"
    using avoids_push by blast
  from "6.prems"(3) h' have ag: "agrees H h h1" using agrees_shorter by blast
  from "6.prems"(2) have nm: "\<forall>m\<in>set ms. json_normal (snd m)" and d: "distinct (map fst ms)"
    by simp_all
  from "6.IH" [OF b nm] obtain vs where vs: "length vs = length ms"
    "ps = foldl (\<lambda>ps (k, v). AList.update k v ps) [] (zip (map fst ms) vs)"
    "\<forall>H st. agrees H h h1 \<longrightarrow> avoids st h h1 \<longrightarrow> map (json_of H st) vs = map Some (map snd ms)"
    by blast
  from vs(1,2) d have ps: "ps = zip (map fst ms) vs"
    using foldl_update_fresh [of "map fst ms" "[]" vs] by simp
  with vs(1) d have dps: "distinct (map fst ps)" by simp
  then have cj: "AList.clearjunk ps = ps" by (rule distinct_clearjunk_id)
  from ps vs(1) have fs: "map fst ps = map fst ms" and sn: "map snd ps = vs" by simp_all
  from vs(3) ag av have "map (json_of H (length h1 # st)) vs = map Some (map snd ms)" by blast
  then have "those (map (json_of H (length h1 # st)) (map snd (AList.clearjunk ps)))
      = Some (map snd ms)"
    unfolding cj sn by (simp only: those_eq_Some)
  with cellH av v cj fs show ?case
    by (simp add: json_of.simps(10) zip_map_fst_snd)
next
  case (8 h t ts)
  obtain v1 h1 where b1: "build h t = (v1, h1)" by (cases "build h t")
  obtain vs2 h2 where b2: "build_list h1 ts = (vs2, h2)" by (cases "build_list h1 ts")
  from b1 b2 "8.prems"(1) have vs: "vs = v1 # vs2" and h': "h' = h2" by auto
  from b1 obtain y where y: "h1 = h @ y" using build_extends(1) by blast
  from b2 obtain z where z: "h2 = h1 @ z" using build_extends(2) by blast
  from "8.prems"(3) h' z have ag1: "agrees H h h1" using agrees_shorter by blast
  from "8.prems"(4) h' z have av1: "avoids st h h1" using avoids_shorter by blast
  from "8.prems"(3) h' y have ag2: "agrees H h1 h2" using agrees_later [of H h h2 h1] by simp
  from "8.prems"(4) h' y have av2: "avoids st h1 h2" using avoids_later [of st h h2 h1] by simp
  from "8.prems"(2) have n1: "json_normal t" and n2: "\<forall>t\<in>set ts. json_normal t" by simp_all
  from "8.IH"(1) [OF b1 n1 ag1 av1] have "json_of H st v1 = Some t" .
  moreover from "8.IH"(2) [OF b1 [symmetric] b2 n2 ag2 av2]
  have "map (json_of H st) vs2 = map Some ts" .
  ultimately show ?case using vs by simp
next
  case (10 h k t ms ps)
  obtain v1 h1 where b1: "build h t = (v1, h1)" by (cases "build h t")
  with "10.prems"(1) have b2: "build_members h1 ms (AList.update k v1 ps) = (qs, h')" by simp
  from b1 obtain y where y: "h1 = h @ y" using build_extends(1) by blast
  from b2 obtain z where z: "h' = h1 @ z" using build_extends(3) by blast
  from "10.prems"(2) have n1: "json_normal t" and n2: "\<forall>m\<in>set ms. json_normal (snd m)"
    by simp_all
  from "10.IH"(2) [OF b1 [symmetric] b2 n2] obtain vs2 where vs2: "length vs2 = length ms"
    "qs = foldl (\<lambda>ps (k, v). AList.update k v ps) (AList.update k v1 ps) (zip (map fst ms) vs2)"
    "\<forall>H st. agrees H h1 h' \<longrightarrow> avoids st h1 h' \<longrightarrow>
       map (json_of H st) vs2 = map Some (map snd ms)"
    by blast
  have "map (json_of H st) (v1 # vs2) = map Some (map snd ((k, t) # ms))"
    if ag: "agrees H h h'" and av: "avoids st h h'" for H st
  proof -
    from ag z have ag1: "agrees H h h1" using agrees_shorter by blast
    from av z have av1: "avoids st h h1" using avoids_shorter by blast
    from ag y have ag2: "agrees H h1 h'" using agrees_later [of H h h' h1] by simp
    from av y have av2: "avoids st h1 h'" using avoids_later [of st h h' h1] by simp
    from "10.IH"(1) [OF b1 n1 ag1 av1] have "json_of H st v1 = Some t" .
    moreover from vs2(3) ag2 av2 have "map (json_of H st) vs2 = map Some (map snd ms)" by blast
    ultimately show ?thesis by simp
  qed
  with vs2(1,2) show ?case
    by (intro exI [of _ "v1 # vs2"]) simp
qed auto


lemma agrees_same_tail: "length h0 = length h \<Longrightarrow> agrees (h0 @ h2) h (h @ h2)"
  by (auto simp: agrees_def nth_append)

text \<open>
  Claim C8. \<open>cloneJSON\<close> returns \<open>null\<close> and \<open>undefined\<close> unchanged. Of a
  JSON-compatible argument, which denotes the JSON value \<open>t\<close>, it returns a value that
  denotes \<open>t\<close> too (the copy is deeply equal), in a heap that extends the old one by new
  cells only. The copy is independent of the original: it denotes \<open>t\<close> whatever the old
  cells hold, so it shares no object with the original, and the original denotes \<open>t\<close>
  whatever the cells beyond the old heap hold, so no mutation of the copy affects it.
\<close>

theorem cloneJSON_copy:
  "(is_nullish obj \<longrightarrow> cloneJSON h obj = Inr (obj, h)) \<and>
   (json_of h [] obj = Some t \<longrightarrow>
      (\<exists>obj' h2. cloneJSON h obj = Inr (obj', h @ h2) \<and>
         json_of (h @ h2) [] obj' = Some t \<and>
         (\<forall>h0. length h0 = length h \<longrightarrow> json_of (h0 @ h2) [] obj' = Some t) \<and>
         (\<forall>h3. json_of (h @ h3) [] obj = Some t)))"
proof (intro conjI impI)
  assume "is_nullish obj"
  then show "cloneJSON h obj = Inr (obj, h)" by (simp add: cloneJSON_def)
next
  assume j: "json_of h [] obj = Some t"
  then have orig: "\<forall>h3. json_of (h @ h3) [] obj = Some t" by (simp add: json_of_append)
  show "\<exists>obj' h2. cloneJSON h obj = Inr (obj', h @ h2) \<and>
         json_of (h @ h2) [] obj' = Some t \<and>
         (\<forall>h0. length h0 = length h \<longrightarrow> json_of (h0 @ h2) [] obj' = Some t) \<and>
         (\<forall>h3. json_of (h @ h3) [] obj = Some t)"
  proof (cases "is_nullish obj")
    case True
    with j have "obj = Null" and "t = JNull" by (cases obj; simp)+
    with orig have "cloneJSON h obj = Inr (obj, h @ []) \<and>
         json_of (h @ []) [] obj = Some t \<and>
         (\<forall>h0. length h0 = length h \<longrightarrow> json_of (h0 @ []) [] obj = Some t) \<and>
         (\<forall>h3. json_of (h @ h3) [] obj = Some t)"
      by (simp add: cloneJSON_def)
    then show ?thesis by blast
  next
    case False
    from j have s: "ser h [] obj = Inr (Some t)" by (rule ser_json_of)
    from j have n: "json_normal t" by (rule json_of_normal)
    obtain obj' h' where b: "build h t = (obj', h')" by (cases "build h t")
    then obtain h2 where h': "h' = h @ h2" using build_extends(1) by blast
    from False s b h' have c: "cloneJSON h obj = Inr (obj', h @ h2)"
      by (simp add: cloneJSON_def JSON_stringify_def JSON_parse_def)
    have copy: "json_of (h0 @ h2) [] obj' = Some t" if "length h0 = length h" for h0
    proof -
      from that have "agrees (h0 @ h2) h (h @ h2)" by (rule agrees_same_tail)
      moreover have "avoids [] h (h @ h2)" by (simp add: avoids_def)
      ultimately show ?thesis using b n h' build_denotes(1) by blast
    qed
    from copy [of h] have "json_of (h @ h2) [] obj' = Some t" by simp
    with c copy orig show ?thesis by blast
  qed
qed

theorem cloneJSON_copy_witness:
  "is_nullish Undefined \<and> cloneJSON [FunObj NoProto 0 []] Undefined = Inr (Undefined, [FunObj NoProto 0 []]) \<and>
   json_of [ArrayObj [Some (Num (Fin 1)), Some (Num (Fin 2))] [], PlainObj [(''a'', Num (Fin 1)), (''b'', Ref 0)]] []
     (Ref 1) = Some (JObj [(''a'', JNum 1), (''b'', JArr [JNum 1, JNum 2])]) \<and>
   cloneJSON [ArrayObj [Some (Num (Fin 1)), Some (Num (Fin 2))] [], PlainObj [(''a'', Num (Fin 1)), (''b'', Ref 0)]]
     (Ref 1) =
     Inr (Ref 3, [ArrayObj [Some (Num (Fin 1)), Some (Num (Fin 2))] [], PlainObj [(''a'', Num (Fin 1)), (''b'', Ref 0)],
                  ArrayObj [Some (Num (Fin 1)), Some (Num (Fin 2))] [], PlainObj [(''a'', Num (Fin 1)), (''b'', Ref 2)]]) \<and>
   json_of [ArrayObj [Some (Num (Fin 1)), Some (Num (Fin 2))] [], PlainObj [(''a'', Num (Fin 1)), (''b'', Ref 0)],
            ArrayObj [Some (Num (Fin 1)), Some (Num (Fin 2))] [], PlainObj [(''a'', Num (Fin 1)), (''b'', Ref 2)]] []
     (Ref 3) = Some (JObj [(''a'', JNum 1), (''b'', JArr [JNum 1, JNum 2])]) \<and>
   json_of [ArrayObj [Some (Num (Fin 1)), Some (Num (Fin 2))] [], PlainObj [(''a'', Num (Fin 1)), (''b'', Ref 0)],
            ArrayObj [Some (Num (Fin 9)), Some (Num (Fin 2))] [], PlainObj [(''a'', Num (Fin 1)), (''b'', Ref 2)]] []
     (Ref 1) = Some (JObj [(''a'', JNum 1), (''b'', JArr [JNum 1, JNum 2])])"
  using cloneJSON_copy [of "Ref 1" "[ArrayObj [Some (Num (Fin 1)), Some (Num (Fin 2))] [], PlainObj [(''a'', Num (Fin 1)), (''b'', Ref 0)]]"
      "JObj [(''a'', JNum 1), (''b'', JArr [JNum 1, JNum 2])]"]
    cloneJSON_copy [of Undefined "[FunObj NoProto 0 []]"]
  by (simp add: json_of.simps(10) cloneJSON_def JSON_stringify_def JSON_parse_def ser.simps(10)
      cell_def members_def elements_def array_values_def List.map_filter_def)

lemma ser_error: "ser h st v = Inl e \<Longrightarrow> \<exists>msg. e = TypeError msg"
proof (induction h st v rule: ser.induct)
  case (10 h st a)
  show ?case
  proof (cases "cell h a")
    case (PlainObj ps)
    show ?thesis
    proof (cases "a \<in> set st")
      case True
      with PlainObj "10.prems" show ?thesis by (auto simp: ser.simps(10))
    next
      case False
      with PlainObj "10.prems"
      have "collect (map (ser h (a # st)) (map snd (AList.clearjunk ps))) = Inl e"
        by (simp add: ser.simps(10) split: sum.splits)
      then have "Inl e \<in> set (map (ser h (a # st)) (map snd (AList.clearjunk ps)))"
        by (rule collect_Inl)
      then obtain y where "y \<in> set (map snd (AList.clearjunk ps))" "ser h (a # st) y = Inl e"
        using in_set_mapE by metis
      with "10.IH"(1) [OF PlainObj False] show ?thesis by blast
    qed
  next
    case (ArrayObj els nps)
    show ?thesis
    proof (cases "a \<in> set st")
      case True
      with ArrayObj "10.prems" show ?thesis by (auto simp: ser.simps(10))
    next
      case False
      with ArrayObj "10.prems"
      have "collect (map (ser h (a # st)) (array_values els)) = Inl e"
        by (simp add: ser.simps(10) split: sum.splits)
      then have "Inl e \<in> set (map (ser h (a # st)) (array_values els))"
        by (rule collect_Inl)
      then obtain x where "x \<in> set (array_values els)" "ser h (a # st) x = Inl e"
        using in_set_mapE by metis
      with "10.IH"(2) [OF ArrayObj False] show ?thesis by blast
    qed
  next
    case (FunObj p n ps)
    with "10.prems" show ?thesis by (simp add: ser.simps(10))
  qed
qed auto

lemma ser_returns_iff: "(\<exists>r. ser h st v = Inr r) \<longleftrightarrow> json_traversable h st v"
proof (induction h st v rule: ser.induct)
  case (10 h st a)
  show ?case
  proof (cases "cell h a")
    case (PlainObj ps)
    show ?thesis
    proof (cases "a \<in> set st")
      case True
      with PlainObj show ?thesis by (simp add: ser.simps(10) json_traversable.simps(1))
    next
      case False
      have "(\<exists>r. ser h st (Ref a) = Inr r) \<longleftrightarrow>
          (\<exists>ts. collect (map (ser h (a # st)) (map snd (AList.clearjunk ps))) = Inr ts)"
        using PlainObj False by (auto simp: ser.simps(10) split: sum.splits)
      also have "\<dots> \<longleftrightarrow> (\<forall>y\<in>set (map snd (AList.clearjunk ps)). \<exists>r. ser h (a # st) y = Inr r)"
        unfolding collect_Inr_iff by auto
      also have "\<dots> \<longleftrightarrow> (\<forall>y\<in>set (map snd (AList.clearjunk ps)). json_traversable h (a # st) y)"
        using "10.IH"(1) [OF PlainObj False] by blast
      finally show ?thesis
        using PlainObj False by (simp add: json_traversable.simps(1) list_all_iff)
    qed
  next
    case (ArrayObj els nps)
    show ?thesis
    proof (cases "a \<in> set st")
      case True
      with ArrayObj show ?thesis by (simp add: ser.simps(10) json_traversable.simps(1))
    next
      case False
      have "(\<exists>r. ser h st (Ref a) = Inr r) \<longleftrightarrow>
          (\<exists>ts. collect (map (ser h (a # st)) (array_values els)) = Inr ts)"
        using ArrayObj False by (auto simp: ser.simps(10) split: sum.splits)
      also have "\<dots> \<longleftrightarrow> (\<forall>x\<in>set (array_values els). \<exists>r. ser h (a # st) x = Inr r)"
        unfolding collect_Inr_iff by auto
      also have "\<dots> \<longleftrightarrow> (\<forall>x\<in>set (array_values els). json_traversable h (a # st) x)"
        using "10.IH"(2) [OF ArrayObj False] by blast
      finally show ?thesis
        using ArrayObj False by (simp add: json_traversable.simps(1) list_all_iff)
    qed
  next
    case (FunObj p n ps)
    then show ?thesis by (simp add: ser.simps(10) json_traversable.simps(1))
  qed
qed simp_all

lemma ser_undefined_iff: "ser h st v = Inr None \<longleftrightarrow> \<not> is_nullish v \<and> \<not> is_serializable h v \<or> v = Undefined"
proof (cases v)
  case (Ref a)
  then show ?thesis
    by (cases "cell h a") (auto simp: ser.simps(10) is_serializable_def split: sum.splits)
next
  case (Num n)
  then show ?thesis by (cases n) (simp_all add: is_serializable_def)
qed (simp_all add: is_serializable_def)

lemma degraded_unserializable: "\<not> is_serializable h v \<Longrightarrow> json_degraded h st v = JNull"
proof (cases v)
  case (Ref a)
  assume "\<not> is_serializable h v"
  with Ref show ?thesis
    by (cases "cell h a") (simp_all add: is_serializable_def json_degraded.simps(1))
qed (simp_all add: is_serializable_def)

lemma members_kept:
  "members (map fst ps) (map (\<lambda>v. if P v then Some (f v) else None) (map snd ps)) =
     zip (map fst (filter (\<lambda>p. P (snd p)) ps)) (map f (map snd (filter (\<lambda>p. P (snd p)) ps)))"
  by (induction ps) (simp_all add: members_def List.map_filter_def)

lemma ser_degraded:
  "json_traversable h st v \<Longrightarrow>
   ser h st v = Inr (if is_serializable h v then Some (json_degraded h st v) else None)"
proof (induction h st v rule: ser.induct)
  case (10 h st a)
  let ?g = "\<lambda>x. if is_serializable h x then Some (json_degraded h (a # st) x) else None"
  show ?case
  proof (cases "cell h a")
    case (PlainObj ps)
    let ?cj = "AList.clearjunk ps"
    from "10.prems" PlainObj have a: "a \<notin> set st"
      and tr: "\<forall>y\<in>set (map snd ?cj). json_traversable h (a # st) y"
      by (auto simp: json_traversable.simps(1) list_all_iff split: if_splits)
    have "map (ser h (a # st)) (map snd ?cj) = map Inr (map ?g (map snd ?cj))"
      using "10.IH"(1) [OF PlainObj a] tr by auto
    then have "collect (map (ser h (a # st)) (map snd ?cj)) = Inr (map ?g (map snd ?cj))"
      by (simp only: collect_map_Inr)
    moreover have "members (map fst ?cj) (map ?g (map snd ?cj)) =
        zip (map fst (kept h ps)) (map (json_degraded h (a # st)) (map snd (kept h ps)))"
      unfolding kept_def by (rule members_kept)
    ultimately show ?thesis
      using PlainObj a
      by (simp add: ser.simps(10) json_degraded.simps(1) is_serializable_def)
  next
    case (ArrayObj els nps)
    from "10.prems" ArrayObj have a: "a \<notin> set st"
      and tr: "\<forall>x\<in>set (array_values els). json_traversable h (a # st) x"
      by (auto simp: json_traversable.simps(1) list_all_iff split: if_splits)
    have "map (ser h (a # st)) (array_values els) = map Inr (map ?g (array_values els))"
      using "10.IH"(2) [OF ArrayObj a] tr by auto
    then have "collect (map (ser h (a # st)) (array_values els)) = Inr (map ?g (array_values els))"
      by (simp only: collect_map_Inr)
    moreover have "elements (map ?g (array_values els)) =
        map (json_degraded h (a # st)) (array_values els)"
      by (simp add: elements_def degraded_unserializable)
    ultimately show ?thesis
      using ArrayObj a
      by (simp add: ser.simps(10) json_degraded.simps(1) is_serializable_def)
  next
    case (FunObj p n ps)
    then show ?thesis by (simp add: ser.simps(10) is_serializable_def)
  qed
qed (simp_all add: is_serializable_def)

lemma degraded_normal: "json_normal (json_degraded h st v)"
proof (induction h st v rule: json_degraded.induct)
  case (1 h st a)
  show ?case
  proof (cases "cell h a")
    case (PlainObj ps)
    show ?thesis
    proof (cases "a \<in> set st")
      case True
      with PlainObj show ?thesis by (simp add: json_degraded.simps(1))
    next
      case False
      have d: "distinct (map fst (kept h ps))"
        unfolding kept_def by (simp add: distinct_map_filter distinct_clearjunk)
      have "json_normal t" if "t \<in> set (map (json_degraded h (a # st)) (map snd (kept h ps)))" for t
        using that "1.IH"(1) [OF PlainObj False] by auto
      with d PlainObj False show ?thesis
        by (auto simp: json_degraded.simps(1) dest: set_zip_rightD)
    qed
  next
    case (ArrayObj els nps)
    show ?thesis
    proof (cases "a \<in> set st")
      case True
      with ArrayObj show ?thesis by (simp add: json_degraded.simps(1))
    next
      case False
      with ArrayObj "1.IH"(2) [OF ArrayObj False] show ?thesis
        by (simp add: json_degraded.simps(1))
    qed
  next
    case (FunObj p n ps)
    then show ?thesis by (simp add: json_degraded.simps(1))
  qed
qed simp_all

text \<open>
  Claim C3, as stated: \<open>cloneJSON\<close> never raises, whatever its argument, functions,
  symbols and circular references included. It fails: \<open>JSON.stringify\<close> of a function
  or a symbol is \<open>undefined\<close>, which \<open>JSON.parse\<close> rejects with a \<open>SyntaxError\<close>, and
  \<open>JSON.stringify\<close> raises a \<open>TypeError\<close> on an object that contains itself; \<open>cloneJSON\<close>
  catches neither.
\<close>

theorem cloneJSON_raises_counterexample:
  "cloneJSON [FunObj WritableProto 0 []] (Ref 0) = Inl (SyntaxError ''undefined'') \<and>
   cloneJSON [] (Sym ''s'') = Inl (SyntaxError ''undefined'') \<and>
   cloneJSON [PlainObj [(''self'', Ref 0)]] (Ref 0) =
     Inl (TypeError ''Converting circular structure to JSON'')"
  by (simp add: cloneJSON_def JSON_stringify_def JSON_parse_def ser.simps(10) cell_def)

text \<open>
  Claim C3, amended. \<open>cloneJSON\<close> returns \<open>null\<close> and \<open>undefined\<close> as they are. Of any
  other argument, in a heap of plain data in which no object has a \<open>toJSON\<close> method:
  it raises a \<open>TypeError\<close> when the serialization reaches a circular reference or a
  BigInt, and a \<open>SyntaxError\<close> when the argument itself is a function or a symbol; in
  every other case it returns, without raising, a value built of new objects only that
  denotes the JSON value of the argument with the parts outside JSON dropped or coerced
  (\<open>json_degraded\<close>): functions, symbols and \<open>undefined\<close> are dropped from objects and
  become \<open>null\<close> in arrays, as holes do, and \<open>NaN\<close> and the infinities become \<open>null\<close>.
\<close>

theorem cloneJSON_raises_iff:
  "(is_nullish obj \<longrightarrow> cloneJSON h obj = Inr (obj, h)) \<and>
   (no_toJSON h \<and> \<not> is_nullish obj \<longrightarrow>
      (\<not> json_traversable h [] obj \<longrightarrow> (\<exists>msg. cloneJSON h obj = Inl (TypeError msg))) \<and>
      (is_symbol obj \<or> is_callable h obj \<longrightarrow> cloneJSON h obj = Inl (SyntaxError ''undefined'')) \<and>
      (json_traversable h [] obj \<and> \<not> is_symbol obj \<and> \<not> is_callable h obj \<longrightarrow>
         (\<exists>obj' h2. cloneJSON h obj = Inr (obj', h @ h2) \<and>
            (\<forall>h0. length h0 = length h \<longrightarrow>
               json_of (h0 @ h2) [] obj' = Some (json_degraded h [] obj)))))"
proof (intro conjI impI)
  assume "is_nullish obj"
  then show "cloneJSON h obj = Inr (obj, h)" by (simp add: cloneJSON_def)
next
  assume a: "no_toJSON h \<and> \<not> is_nullish obj" and b: "\<not> json_traversable h [] obj"
  from b have "\<not> (\<exists>r. ser h [] obj = Inr r)" by (simp add: ser_returns_iff)
  then obtain e where e: "ser h [] obj = Inl e" by (cases "ser h [] obj") auto
  then obtain msg where "e = TypeError msg" using ser_error by blast
  with a e have "cloneJSON h obj = Inl (TypeError msg)"
    by (simp add: cloneJSON_def JSON_stringify_def)
  then show "\<exists>msg. cloneJSON h obj = Inl (TypeError msg)" ..
next
  assume a: "no_toJSON h \<and> \<not> is_nullish obj" and b: "is_symbol obj \<or> is_callable h obj"
  then have "ser h [] obj = Inr None" by (auto simp: ser_undefined_iff is_serializable_def)
  with a show "cloneJSON h obj = Inl (SyntaxError ''undefined'')"
    by (simp add: cloneJSON_def JSON_stringify_def JSON_parse_def)
next
  assume a: "no_toJSON h \<and> \<not> is_nullish obj"
    and b: "json_traversable h [] obj \<and> \<not> is_symbol obj \<and> \<not> is_callable h obj"
  from a b have "is_serializable h obj" by (auto simp: is_serializable_def)
  with b have s: "ser h [] obj = Inr (Some (json_degraded h [] obj))"
    by (simp add: ser_degraded)
  obtain obj' h' where bd: "build h (json_degraded h [] obj) = (obj', h')"
    by (cases "build h (json_degraded h [] obj)")
  then obtain h2 where h': "h' = h @ h2" using build_extends(1) by blast
  from a s bd h' have c: "cloneJSON h obj = Inr (obj', h @ h2)"
    by (simp add: cloneJSON_def JSON_stringify_def JSON_parse_def)
  have "json_of (h0 @ h2) [] obj' = Some (json_degraded h [] obj)" if "length h0 = length h" for h0
  proof -
    from that have "agrees (h0 @ h2) h (h @ h2)" by (rule agrees_same_tail)
    moreover have "avoids [] h (h @ h2)" by (simp add: avoids_def)
    ultimately show ?thesis using bd h' degraded_normal build_denotes(1) by blast
  qed
  with c show "\<exists>obj' h2. cloneJSON h obj = Inr (obj', h @ h2) \<and>
      (\<forall>h0. length h0 = length h \<longrightarrow> json_of (h0 @ h2) [] obj' = Some (json_degraded h [] obj))"
    by blast
qed
theorem cloneJSON_raises_iff_witness:
  "\<not> is_nullish (Ref 0) \<and>
   no_toJSON [PlainObj [(''a'', Num (Fin 1)), (''f'', Ref 1), (''u'', Undefined), (''c'', Ref 2)],
     FunObj WritableProto 0 [], ArrayObj [Some (Ref 1), Some (Num NaN), None, Some (Str ''x'')] []] \<and>
   json_traversable [PlainObj [(''a'', Num (Fin 1)), (''f'', Ref 1), (''u'', Undefined), (''c'', Ref 2)],
     FunObj WritableProto 0 [], ArrayObj [Some (Ref 1), Some (Num NaN), None, Some (Str ''x'')] []] [] (Ref 0) \<and>
   json_degraded [PlainObj [(''a'', Num (Fin 1)), (''f'', Ref 1), (''u'', Undefined), (''c'', Ref 2)],
     FunObj WritableProto 0 [], ArrayObj [Some (Ref 1), Some (Num NaN), None, Some (Str ''x'')] []] [] (Ref 0) =
     JObj [(''a'', JNum 1), (''c'', JArr [JNull, JNull, JNull, JStr ''x''])] \<and>
   cloneJSON [PlainObj [(''a'', Num (Fin 1)), (''f'', Ref 1), (''u'', Undefined), (''c'', Ref 2)],
     FunObj WritableProto 0 [], ArrayObj [Some (Ref 1), Some (Num NaN), None, Some (Str ''x'')] []] (Ref 0) =
   Inr (Ref 4, [PlainObj [(''a'', Num (Fin 1)), (''f'', Ref 1), (''u'', Undefined), (''c'', Ref 2)],
     FunObj WritableProto 0 [], ArrayObj [Some (Ref 1), Some (Num NaN), None, Some (Str ''x'')] [],
     ArrayObj [Some Null, Some Null, Some Null, Some (Str ''x'')] [],
     PlainObj [(''a'', Num (Fin 1)), (''c'', Ref 3)]]) \<and>
   json_of ([PlainObj [], PlainObj [], PlainObj []] @
       [ArrayObj [Some Null, Some Null, Some Null, Some (Str ''x'')] [],
        PlainObj [(''a'', Num (Fin 1)), (''c'', Ref 3)]]) [] (Ref 4) =
     Some (JObj [(''a'', JNum 1), (''c'', JArr [JNull, JNull, JNull, JStr ''x''])]) \<and>
   is_nullish Undefined \<and> cloneJSON [] Undefined = Inr (Undefined, []) \<and>
   \<not> json_traversable [ArrayObj [Some (Ref 1)] [], PlainObj [(''up'', Ref 0)]] [] (Ref 0) \<and>
   cloneJSON [ArrayObj [Some (Ref 1)] [], PlainObj [(''up'', Ref 0)]] (Ref 0) =
     Inl (TypeError ''Converting circular structure to JSON'') \<and>
   \<not> json_traversable [PlainObj [(''n'', BigInt 1)]] [] (Ref 0) \<and>
   cloneJSON [PlainObj [(''n'', BigInt 1)]] (Ref 0) =
     Inl (TypeError ''Do not know how to serialize a BigInt'') \<and>
   is_callable [PlainObj [], FunObj NoProto 1 []] (Ref 1) \<and>
   cloneJSON [PlainObj [], FunObj NoProto 1 []] (Ref 1) = Inl (SyntaxError ''undefined'')"
  using cloneJSON_raises_iff [of "Ref 0" "[PlainObj [(''a'', Num (Fin 1)), (''f'', Ref 1), (''u'', Undefined), (''c'', Ref 2)],
     FunObj WritableProto 0 [], ArrayObj [Some (Ref 1), Some (Num NaN), None, Some (Str ''x'')] []]"]
    cloneJSON_raises_iff [of Undefined "[]"]
    cloneJSON_raises_iff [of "Ref 0" "[ArrayObj [Some (Ref 1)] [], PlainObj [(''up'', Ref 0)]]"]
    cloneJSON_raises_iff [of "Ref 0" "[PlainObj [(''n'', BigInt 1)]]"]
    cloneJSON_raises_iff [of "Ref 1" "[PlainObj [], FunObj NoProto 1 []]"]
  by (simp add: cloneJSON_def JSON_stringify_def JSON_parse_def ser.simps(10) cell_def
      json_traversable.simps(1) json_degraded.simps(1) members_def elements_def
      List.map_filter_def array_values_def kept_def is_serializable_def
      no_toJSON_def has_toJSON_def json_of.simps(10))

end
